theory Spec2Isabelle
  imports Main "HOL-Library.Word"
begin

unbundle bit_operations_syntax

section \<open>Wire primitive codec, decode side\<close>

subsection \<open>The decoder state\<close>

text \<open>
  A Go panic is a value. \<open>IndexOutOfRange\<close> is the runtime panic of \<open>buf[i]\<close>,
  \<open>SliceBoundsOutOfRange\<close> the one of \<open>buf[lo:hi]\<close>, \<open>MakeSliceNegativeLen\<close> the
  one of \<open>reflect.MakeSlice\<close>, \<open>SetNotAssignable\<close> the one of \<open>Value.Set\<close> on a value
  whose type is not assignable to the type of the destination, \<open>UnhashableKey\<close> the
  one of \<open>Value.SetMapIndex\<close> on a key that cannot be hashed, and \<open>Panic msg\<close> a call
  of \<open>panic\<close> with a message.
\<close>

datatype panic =
    IndexOutOfRange | SliceBoundsOutOfRange | MakeSliceNegativeLen | NotSupportType nat
  | SetNotAssignable | UnhashableKey | Panic string

type_synonym byte = "8 word"

text \<open>
  The struct \<open>Decoder\<close> of decoder.go. The slice \<open>buf\<close> is kept as the bytes of its
  backing array from its first element up to its capacity (\<open>bufmem\<close>) together with its
  length (\<open>buflen\<close>): indexing is checked against the length, slicing against the
  capacity. A Go \<open>int\<close> is an \<open>int\<close>. The fields \<open>engines\<close> and \<open>length\<close> are passed
  to \<open>decode\<close> as an argument.
\<close>

record Decoder =
  bufmem :: "byte list"
  buflen :: int
  index :: int
  boolPos :: byte
  boolBit :: byte

definition bindE :: "panic + 'a \<Rightarrow> ('a \<Rightarrow> panic + 'b) \<Rightarrow> panic + 'b" where
  "bindE m f = (case m of Inl e \<Rightarrow> Inl e | Inr x \<Rightarrow> f x)"

text \<open>\<open>d.buf[i]\<close>: panics unless \<open>0 \<le> i < len(d.buf)\<close>.\<close>

definition bufAt :: "Decoder \<Rightarrow> int \<Rightarrow> panic + byte" where
  "bufAt d i =
     (if 0 \<le> i \<and> i < buflen d \<and> i < int (length (bufmem d))
      then Inr (bufmem d ! nat i) else Inl IndexOutOfRange)"

text \<open>\<open>d.buf[lo:hi]\<close>: panics unless \<open>0 \<le> lo \<le> hi \<le> cap(d.buf)\<close>.\<close>

definition bufSlice :: "Decoder \<Rightarrow> int \<Rightarrow> int \<Rightarrow> panic + byte list" where
  "bufSlice d lo hi =
     (if 0 \<le> lo \<and> lo \<le> hi \<and> hi \<le> int (length (bufmem d))
      then Inr (take (nat (hi - lo)) (drop (nat lo) (bufmem d)))
      else Inl SliceBoundsOutOfRange)"

text \<open>A decoder as \<open>NewDecoder\<close> leaves it, given the buffer \<open>decode\<close> stores in it.\<close>

definition newDecoder :: "byte list \<Rightarrow> Decoder" where
  "newDecoder bs =
     \<lparr>bufmem = bs, buflen = int (length bs), index = 0, boolPos = 0, boolBit = 0\<rparr>"

subsection \<open>Booleans\<close>

definition decBool :: "Decoder \<Rightarrow> panic + (bool \<times> Decoder)" where
  "decBool d =
     bindE (if boolBit d = 0
            then bindE (bufAt d (index d))
                   (\<lambda>b. Inr (d\<lparr>boolBit := 1, boolPos := b, index := index d + 1\<rparr>))
            else Inr d)
       (\<lambda>d1. Inr (boolPos d1 AND boolBit d1 \<noteq> 0, d1\<lparr>boolBit := push_bit 1 (boolBit d1)\<rparr>))"

definition decIsNotNil :: "Decoder \<Rightarrow> panic + (bool \<times> Decoder)" where
  "decIsNotNil d = decBool d"

definition reset :: "Decoder \<Rightarrow> int \<times> Decoder" where
  "reset d = (index d, d\<lparr>index := 0, boolPos := 0, boolBit := 0\<rparr>)"

subsection \<open>Unsigned variable-length integers\<close>



definition decUint32 :: "Decoder \<Rightarrow> panic + (32 word \<times> Decoder)" where
  "decUint32 d = (let i = index d in
     bindE (bufAt d i) (\<lambda>b0. let x = (ucast b0 :: 32 word) in
     if x < 0x80 then Inr (x, d\<lparr>index := i + 1\<rparr>) else
     bindE (bufAt d (i + 1)) (\<lambda>x1. let x = x + push_bit 7 (ucast x1) in
     if x1 < 0x80 then Inr (x - push_bit 7 1, d\<lparr>index := i + 2\<rparr>) else
     bindE (bufAt d (i + 2)) (\<lambda>x2. let x = x + push_bit 14 (ucast x2) in
     if x2 < 0x80 then Inr (x - (push_bit 7 1 + push_bit 14 1), d\<lparr>index := i + 3\<rparr>) else
     bindE (bufAt d (i + 3)) (\<lambda>x3. let x = x + push_bit 21 (ucast x3) in
     if x3 < 0x80
     then Inr (x - (push_bit 7 1 + push_bit 14 1 + push_bit 21 1), d\<lparr>index := i + 4\<rparr>) else
     bindE (bufAt d (i + 4)) (\<lambda>x4. let x = x + push_bit 28 (ucast x4) in
     Inr (x - (push_bit 7 1 + push_bit 14 1 + push_bit 21 1 + push_bit 28 1),
          d\<lparr>index := i + 5\<rparr>)))))))"

subsection \<open>The encoder of unsigned integers\<close>

text \<open>
  Modelled from the spec: the encoder of unsigned integers, which is not among the
  sources. An unsigned integer is written in groups of seven bits, the least
  significant group first, one group to a byte whose high bit is set when more groups
  follow; the number of groups is bounded by the width, and the last group of the
  maximum holds the remaining bits whole, as a byte with no flag. \<open>encUvarint m v\<close>
  writes \<open>v\<close> in at most \<open>m\<close> groups.
\<close>

fun encUvarint :: "nat \<Rightarrow> 'a::len word \<Rightarrow> byte list" where
  "encUvarint 0 v = []"
| "encUvarint (Suc 0) v = [ucast v]"
| "encUvarint (Suc (Suc m)) v =
     (if v < 0x80 then [ucast v]
      else (ucast v OR 0x80) # encUvarint (Suc m) (drop_bit 7 v))"

text \<open>
  Modelled from the spec: the encoders of the three widths. The specification has a
  maximum of 5 groups for 32 bits and of 9 for 64 bits. For 16 bits it has 2, which
  hold 15 bits; \<open>decUint16\<close> reads up to three bytes, and three it is here.
\<close>

definition encUint16 :: "16 word \<Rightarrow> byte list" where
  "encUint16 v = encUvarint 3 v"

definition encUint32 :: "32 word \<Rightarrow> byte list" where
  "encUint32 v = encUvarint 5 v"

definition encUint64 :: "64 word \<Rightarrow> byte list" where
  "encUint64 v = encUvarint 9 v"

text \<open>
  Modelled from the spec: the value that a sequence of groups stands for, the last
  byte taken whole and the low seven bits of every byte before it.
\<close>

fun groupsValue :: "byte list \<Rightarrow> 'a::len word" where
  "groupsValue [] = 0"
| "groupsValue [b] = ucast b"
| "groupsValue (b # bs) = ucast (b AND 0x7F) + push_bit 7 (groupsValue bs)"

subsection \<open>Zigzag mapping of signed integers\<close>

text \<open>
  A signed and an unsigned Go integer of one width are both a word of that width; the
  conversions \<open>uint64(v)\<close> and \<open>int64(u)\<close> keep the bits. On a signed operand \<open>>>\<close>
  is the arithmetic shift, and \<open>&\<close> binds tighter than \<open>^\<close>.
\<close>

definition int64ToUint64 :: "64 word \<Rightarrow> 64 word" where
  "int64ToUint64 v = push_bit 1 v XOR signed_drop_bit 63 v"

definition uint64ToInt64 :: "64 word \<Rightarrow> 64 word" where
  "uint64ToInt64 u = (let v = u in (- (v AND 1)) XOR (signed_drop_bit 1 v AND 0x7FFFFFFFFFFFFFFF))"

definition int32ToUint32 :: "32 word \<Rightarrow> 32 word" where
  "int32ToUint32 v = push_bit 1 v XOR signed_drop_bit 31 v"

definition uint32ToInt32 :: "32 word \<Rightarrow> 32 word" where
  "uint32ToInt32 u = (let v = u in (- (v AND 1)) XOR (signed_drop_bit 1 v AND 0x7FFFFFFF))"

definition int16ToUint16 :: "16 word \<Rightarrow> 16 word" where
  "int16ToUint16 v = push_bit 1 v XOR signed_drop_bit 15 v"

definition uint16ToInt16 :: "16 word \<Rightarrow> 16 word" where
  "uint16ToInt16 u = (let v = u in (- (v AND 1)) XOR (signed_drop_bit 1 v AND 0x7FFF))"

subsection \<open>The floating-point transform\<close>

text \<open>
  A \<open>float64\<close> is its bit pattern, which is all that \<open>*(*uint64)(v)\<close> and
  \<open>*(*float64)(unsafe.Pointer(&u))\<close> read and write.
\<close>

definition reverse64Byte :: "64 word \<Rightarrow> 64 word" where
  "reverse64Byte u0 =
     (let u = push_bit 32 u0 OR drop_bit 32 u0;
          u = (push_bit 16 u AND 0xFFFF0000FFFF0000) OR (drop_bit 16 u AND 0xFFFF0000FFFF);
          u = (push_bit 8 u AND 0xFF00FF00FF00FF00) OR (drop_bit 8 u AND 0xFF00FF00FF00FF)
      in u)"

definition float64ToUint64 :: "64 word \<Rightarrow> 64 word" where
  "float64ToUint64 v = reverse64Byte v"

definition uint64ToFloat64 :: "64 word \<Rightarrow> 64 word" where
  "uint64ToFloat64 u = reverse64Byte u"

definition reverse32Byte :: "32 word \<Rightarrow> 32 word" where
  "reverse32Byte u0 =
     (let u = push_bit 16 u0 OR drop_bit 16 u0
      in (push_bit 8 u AND 0xFF00FF00) OR (drop_bit 8 u AND 0xFF00FF))"

definition float32ToUint32 :: "32 word \<Rightarrow> 32 word" where
  "float32ToUint32 v = reverse32Byte v"

definition uint32ToFloat32 :: "32 word \<Rightarrow> 32 word" where
  "uint32ToFloat32 u = reverse32Byte u"


subsection \<open>Lengths, strings and byte slices\<close>

text \<open>
  \<open>int(u)\<close> for a \<open>uint32\<close>: the value on a platform whose \<open>int\<close> has 64 bits, the
  two's complement reading on one whose \<open>int\<close> has 32 bits (\<open>ptr1Size\<close> tells the two
  apart in the source). \<open>intSize\<close> is \<open>strconv.IntSize\<close>, 32 or 64.
\<close>

definition intOfUint32 :: "nat \<Rightarrow> 32 word \<Rightarrow> int" where
  "intOfUint32 intSize u = (if intSize = 32 then sint u else uint u)"

definition decLength :: "nat \<Rightarrow> Decoder \<Rightarrow> panic + (int \<times> Decoder)" where
  "decLength intSize d = bindE (decUint32 d) (\<lambda>(u, d1). Inr (intOfUint32 intSize u, d1))"

text \<open>The function \<open>decString\<close>; the string it stores is returned as its bytes.\<close>

definition decString :: "nat \<Rightarrow> Decoder \<Rightarrow> panic + (byte list \<times> Decoder)" where
  "decString intSize d =
     bindE (decUint32 d) (\<lambda>(u, d1). let l = intOfUint32 intSize u in
     bindE (bufSlice d1 (index d1) (index d1 + l)) (\<lambda>val.
     Inr (val, d1\<lparr>index := index d1 + l\<rparr>)))"

text \<open>The function \<open>decBytes\<close>; a \<open>[]byte\<close> is \<open>None\<close> when it is nil.\<close>

definition decBytes ::
  "nat \<Rightarrow> Decoder \<Rightarrow> byte list option \<Rightarrow> panic + (byte list option \<times> Decoder)" where
  "decBytes intSize d bytes =
     bindE (decIsNotNil d) (\<lambda>(notNil, d1).
     if notNil then
       bindE (decUint32 d1) (\<lambda>(u, d2). let l = intOfUint32 intSize u in
       bindE (bufSlice d2 (index d2) (index d2 + l)) (\<lambda>bs.
       Inr (Some bs, d2\<lparr>index := index d2 + l\<rparr>)))
     else if bytes \<noteq> None then Inr (None, d1)
     else Inr (bytes, d1))"

text \<open>
  The decode engines that \<open>implementOtherSerializer\<close> builds for a type with
  \<open>UnmarshalBinary\<close>, and for one with \<open>GobDecode\<close>. The method is a parameter: it
  takes the blob and the destination's state and returns the new state or an error.
\<close>

definition decBinaryEng ::
  "nat \<Rightarrow> (byte list \<Rightarrow> 'h \<Rightarrow> string + 'h) \<Rightarrow> Decoder \<Rightarrow> 'h \<Rightarrow> panic + (Decoder \<times> 'h)" where
  "decBinaryEng intSize UnmarshalBinary d h =
     bindE (decLength intSize d) (\<lambda>(length, d1).
     let start = index d1; d2 = d1\<lparr>index := index d1 + length\<rparr> in
     bindE (bufSlice d2 start (index d2)) (\<lambda>blob.
     case UnmarshalBinary blob h of Inl err \<Rightarrow> Inl (Panic err) | Inr h1 \<Rightarrow> Inr (d2, h1)))"

definition decGobEng ::
  "nat \<Rightarrow> (byte list \<Rightarrow> 'h \<Rightarrow> string + 'h) \<Rightarrow> Decoder \<Rightarrow> 'h \<Rightarrow> panic + (Decoder \<times> 'h)" where
  "decGobEng intSize GobDecode d h =
     bindE (decLength intSize d) (\<lambda>(length, d1).
     let start = index d1; d2 = d1\<lparr>index := index d1 + length\<rparr> in
     bindE (bufSlice d2 start (index d2)) (\<lambda>blob.
     case GobDecode blob h of Inl err \<Rightarrow> Inl (Panic err) | Inr h1 \<Rightarrow> Inr (d2, h1)))"

section \<open>Decode engines run on a destination\<close>

text \<open>
  An \<open>unsafe.Pointer\<close> is an address, \<open>None\<close> when nil. A decode engine
  \<open>func(*Decoder, unsafe.Pointer)\<close> takes the decoder, the memory \<open>'h\<close> it writes to
  and the destination address, and returns both updated, or the panic.
\<close>

type_synonym addr = nat

type_synonym 'h decEng = "Decoder \<Rightarrow> 'h \<Rightarrow> addr \<Rightarrow> panic + (Decoder \<times> 'h)"

text \<open>\<open>for i := 0; i < l; i++ { encodingEngine(d, at i) }\<close>, over the indices still to do.\<close>

fun runElems :: "'h decEng \<Rightarrow> (nat \<Rightarrow> addr) \<Rightarrow> nat list \<Rightarrow> Decoder \<Rightarrow> 'h \<Rightarrow> panic + (Decoder \<times> 'h)" where
  "runElems eng at [] d h = Inr (d, h)"
| "runElems eng at (i # is) d h =
     (case eng d h (at i) of Inl e \<Rightarrow> Inl e | Inr (d1, h1) \<Rightarrow> runElems eng at is d1 h1)"

text \<open>The engine \<open>decBool\<close> of the engine table; \<open>store\<close> writes a bool at an address.\<close>

definition decBoolEng :: "(addr \<Rightarrow> bool \<Rightarrow> 'h \<Rightarrow> 'h) \<Rightarrow> 'h decEng" where
  "decBoolEng store d h p = bindE (decBool d) (\<lambda>(b, d1). Inr (d1, store p b h))"

text \<open>The engine \<open>decUint8\<close> of the engine table.\<close>

definition decUint8Eng :: "(addr \<Rightarrow> byte \<Rightarrow> 'h \<Rightarrow> 'h) \<Rightarrow> 'h decEng" where
  "decUint8Eng store d h p =
     bindE (bufAt d (index d)) (\<lambda>b. Inr (d\<lparr>index := index d + 1\<rparr>, store p b h))"

text \<open>The engine that \<open>buildDecEngine\<close> builds for an array type of \<open>l\<close> elements.\<close>

definition decArrayEng :: "'h decEng \<Rightarrow> nat \<Rightarrow> nat \<Rightarrow> 'h decEng" where
  "decArrayEng encodingEngine l elemSize d h p =
     runElems encodingEngine (\<lambda>i. p + i * elemSize) [0..<l] d h"

text \<open>
  The struct \<open>sliceHeader\<close> of unsafe.go, and the engine that \<open>buildDecEngine\<close> builds
  for a slice type. The header at \<open>p\<close> is passed and returned; \<open>isNil(p)\<close> reads its
  first word, the data pointer. \<open>makeSlice l\<close> is
  \<open>reflect.MakeSlice(reflectType, l, l).UnsafePointer()\<close>: it panics on a negative
  length and otherwise returns the address of a new backing array of \<open>l\<close> elements.
\<close>

record sliceHeader =
  data :: "addr option"
  len :: int
  cap :: int

definition isNilHeader :: "sliceHeader \<Rightarrow> bool" where
  "isNilHeader header = (data header = None)"

definition addrOf :: "addr option \<Rightarrow> addr" where
  "addrOf p = (case p of None \<Rightarrow> 0 | Some a \<Rightarrow> a)"

definition decSliceEng ::
  "nat \<Rightarrow> (int \<Rightarrow> 'h \<Rightarrow> addr \<times> 'h) \<Rightarrow> 'h decEng \<Rightarrow> nat \<Rightarrow> Decoder \<Rightarrow> 'h \<Rightarrow> sliceHeader
   \<Rightarrow> panic + (sliceHeader \<times> Decoder \<times> 'h)" where
  "decSliceEng intSize makeSlice encodingEngine elemSize d h header =
     bindE (decIsNotNil d) (\<lambda>(notNil, d1).
     if notNil then
       bindE (decLength intSize d1) (\<lambda>(l, d2).
       bindE (if isNilHeader header \<or> cap header < l
              then (if l < 0 then Inl MakeSliceNegativeLen
                    else (let (a, h1) = makeSlice l h
                          in Inr (\<lparr>data = Some a, len = l, cap = l\<rparr>, h1)))
              else Inr (header\<lparr>len := l\<rparr>, h))
         (\<lambda>(header1, h1).
       bindE (runElems encodingEngine (\<lambda>i. addrOf (data header1) + i * elemSize) [0..<nat l] d2 h1)
         (\<lambda>(d3, h2). Inr (header1, d3, h2))))
     else if \<not> isNilHeader header then Inr (\<lparr>data = None, len = 0, cap = 0\<rparr>, d1, h)
     else Inr (header, d1, h))"

text \<open>
  The engine that \<open>buildDecEngine\<close> builds for a map type. The map at \<open>p\<close> is its
  pointer, \<open>None\<close> when nil, passed and returned. \<open>makeMap l\<close> is
  \<open>reflect.MakeMapWithSize(reflectType, l)\<close>; \<open>key\<close> and \<open>val\<close> are the addresses of
  the two scratch values of \<open>reflect.New\<close>; \<open>setMapIndex m\<close> is \<open>v.SetMapIndex(key, val)\<close>
  on the map \<open>m\<close>, which panics on a key that cannot be hashed (an interface value
  holding a slice, a map or a function), and \<open>setZero\<close> the two \<open>SetZero\<close> calls after
  it.
\<close>

fun runEntries ::
  "'h decEng \<Rightarrow> 'h decEng \<Rightarrow> ('h \<Rightarrow> panic + 'h) \<Rightarrow> addr \<Rightarrow> addr \<Rightarrow> nat list \<Rightarrow> Decoder \<Rightarrow> 'h
   \<Rightarrow> panic + (Decoder \<times> 'h)" where
  "runEntries kEng vEng insertEntry key val [] d h = Inr (d, h)"
| "runEntries kEng vEng insertEntry key val (i # rest) d h =
     (case kEng d h key of Inl e \<Rightarrow> Inl e | Inr (d1, h1) \<Rightarrow>
     (case vEng d1 h1 val of Inl e \<Rightarrow> Inl e | Inr (d2, h2) \<Rightarrow>
     (case insertEntry h2 of Inl e \<Rightarrow> Inl e | Inr h3 \<Rightarrow>
        runEntries kEng vEng insertEntry key val rest d2 h3)))"

definition decMapEng ::
  "nat \<Rightarrow> (int \<Rightarrow> 'h \<Rightarrow> addr \<times> 'h) \<Rightarrow> 'h decEng \<Rightarrow> 'h decEng \<Rightarrow> (addr \<Rightarrow> 'h \<Rightarrow> panic + 'h)
   \<Rightarrow> ('h \<Rightarrow> 'h)
   \<Rightarrow> addr \<Rightarrow> addr \<Rightarrow> Decoder \<Rightarrow> 'h \<Rightarrow> addr option \<Rightarrow> panic + (addr option \<times> Decoder \<times> 'h)" where
  "decMapEng intSize makeMap kEng vEng setMapIndex setZero key val d h mp =
     bindE (decIsNotNil d) (\<lambda>(notNil, d1).
     if notNil then
       bindE (decLength intSize d1) (\<lambda>(l, d2).
       let (v, h1) = (case mp of None \<Rightarrow> (let (m, h0) = makeMap l h in (m, h0))
                              | Some m \<Rightarrow> (m, h))
       in bindE (runEntries kEng vEng (\<lambda>hh. bindE (setMapIndex v hh) (\<lambda>hi. Inr (setZero hi)))
                   key val [0..<nat l] d2 h1)
            (\<lambda>(d3, h2). Inr (Some v, d3, h2)))
     else if mp \<noteq> None then Inr (None, d1, h)
     else Inr (mp, d1, h))"

text \<open>
  The engine that \<open>buildDecEngine\<close> builds for an interface type. The slot at \<open>p\<close> is
  the dynamic type of the value it holds, \<open>None\<close> when nil. \<open>name2type\<close> is the
  registry table, and \<open>getDecEngine t fresh\<close> is the call
  \<open>getDecEngine(elementType)(d, ...)\<close> on the value the slot will hold: a new one
  (\<open>fresh\<close>) or the one already there. A new value is stored by \<open>v.Set(ev)\<close> after
  its engine has run, and \<open>Set\<close> panics unless the type of \<open>ev\<close> is assignable to
  \<open>reflectType\<close>, the interface type of the slot: \<open>assignable t\<close> says that it is.
\<close>

definition stringOfBytes :: "byte list \<Rightarrow> string" where
  "stringOfBytes bs = map (\<lambda>b. char_of (unat b)) bs"

definition decInterfaceEng ::
  "nat \<Rightarrow> (string \<rightharpoonup> 'ty) \<Rightarrow> ('ty \<Rightarrow> bool) \<Rightarrow> ('ty \<Rightarrow> bool \<Rightarrow> Decoder \<Rightarrow> 'h \<Rightarrow> panic + (Decoder \<times> 'h))
   \<Rightarrow> Decoder \<Rightarrow> 'h \<Rightarrow> 'ty option \<Rightarrow> panic + ('ty option \<times> Decoder \<times> 'h)" where
  "decInterfaceEng intSize name2type assignable getDecEngine d h slot =
     bindE (decIsNotNil d) (\<lambda>(notNil, d1).
     if notNil then
       bindE (decString intSize d1) (\<lambda>(nameBytes, d2). let name = stringOfBytes nameBytes in
       case name2type name of
         None \<Rightarrow> Inl (Panic (''unknown typ:'' @ name))
       | Some elementType \<Rightarrow>
           if slot = None \<or> slot \<noteq> Some elementType
           then bindE (getDecEngine elementType True d2 h)
                  (\<lambda>(d3, h1). if assignable elementType then Inr (Some elementType, d3, h1)
                               else Inl SetNotAssignable)
           else bindE (getDecEngine elementType False d2 h)
                  (\<lambda>(d3, h1). Inr (slot, d3, h1)))
     else if slot \<noteq> None then Inr (None, d1, h)
     else Inr (slot, d1, h))"

text \<open>
  \<open>Decoder.decode\<close>: the slice \<open>buf\<close> of the caller is stored as it is, its backing
  bytes up to its capacity (\<open>buf\<close>) and its length (\<open>n\<close>); the engines run in order on
  the destinations, as far as both lists go, and then \<open>reset\<close> returns the bytes
  consumed.
\<close>

fun runEngines :: "'h decEng list \<Rightarrow> addr list \<Rightarrow> Decoder \<Rightarrow> 'h \<Rightarrow> panic + (Decoder \<times> 'h)" where
  "runEngines (eng # engines) (p # is) d h =
     (case eng d h p of Inl e \<Rightarrow> Inl e | Inr (d1, h1) \<Rightarrow> runEngines engines is d1 h1)"
| "runEngines engines is d h = Inr (d, h)"

definition decode ::
  "'h decEng list \<Rightarrow> byte list \<Rightarrow> int \<Rightarrow> addr list \<Rightarrow> Decoder \<Rightarrow> 'h
   \<Rightarrow> panic + (int \<times> Decoder \<times> 'h)" where
  "decode engines buf n is d h =
     bindE (runEngines engines is (d\<lparr>bufmem := buf, buflen := n\<rparr>) h)
       (\<lambda>(d1, h1). let (n, d2) = reset d1 in Inr (n, d2, h1))"

subsection \<open>The Decoder that a panic leaves\<close>

text \<open>
  The engines work on the \<open>*Decoder\<close> in place. A panic unwinds the call and leaves
  the Decoder as the statement that panicked found it, and \<open>decode\<close>, which has no
  \<open>recover\<close>, does not reach \<open>reset\<close> then. The definitions below are \<open>Decoder.decBool\<close>,
  the engines \<open>decBool\<close> and \<open>decUint8\<close> and \<open>Decoder.decode\<close> once more, a panic
  now being returned with the Decoder and the memory it leaves; \<open>dropState\<close> forgets
  them again. In \<open>Decoder.decBool\<close> the assignment \<open>d.boolBit = 1\<close> comes before the
  read of \<open>d.buf[d.index]\<close>.
\<close>

type_synonym 'h decEngInPlace =
  "Decoder \<Rightarrow> 'h \<Rightarrow> addr \<Rightarrow> (panic \<times> Decoder \<times> 'h) + (Decoder \<times> 'h)"

definition dropState :: "(panic \<times> 's) + 'a \<Rightarrow> panic + 'a" where
  "dropState r = (case r of Inl (e, s) \<Rightarrow> Inl e | Inr x \<Rightarrow> Inr x)"

definition decBoolInPlace :: "Decoder \<Rightarrow> (panic \<times> Decoder) + (bool \<times> Decoder)" where
  "decBoolInPlace d =
     (case (if boolBit d = 0
            then (let d0 = d\<lparr>boolBit := 1\<rparr> in
                  case bufAt d0 (index d0) of
                    Inl e \<Rightarrow> Inl (e, d0)
                  | Inr b \<Rightarrow> Inr (d0\<lparr>boolPos := b, index := index d0 + 1\<rparr>))
            else Inr d) of
        Inl x \<Rightarrow> Inl x
      | Inr d1 \<Rightarrow> Inr (boolPos d1 AND boolBit d1 \<noteq> 0, d1\<lparr>boolBit := push_bit 1 (boolBit d1)\<rparr>))"

definition decBoolEngInPlace :: "(addr \<Rightarrow> bool \<Rightarrow> 'h \<Rightarrow> 'h) \<Rightarrow> 'h decEngInPlace" where
  "decBoolEngInPlace store d h p =
     (case decBoolInPlace d of
        Inl (e, d1) \<Rightarrow> Inl (e, d1, h)
      | Inr (b, d1) \<Rightarrow> Inr (d1, store p b h))"

definition decUint8EngInPlace :: "(addr \<Rightarrow> byte \<Rightarrow> 'h \<Rightarrow> 'h) \<Rightarrow> 'h decEngInPlace" where
  "decUint8EngInPlace store d h p =
     (case bufAt d (index d) of
        Inl e \<Rightarrow> Inl (e, d, h)
      | Inr b \<Rightarrow> Inr (d\<lparr>index := index d + 1\<rparr>, store p b h))"

fun runEnginesInPlace ::
  "'h decEngInPlace list \<Rightarrow> addr list \<Rightarrow> Decoder \<Rightarrow> 'h \<Rightarrow> (panic \<times> Decoder \<times> 'h) + (Decoder \<times> 'h)"
  where
  "runEnginesInPlace (eng # engines) (p # is) d h =
     (case eng d h p of Inl x \<Rightarrow> Inl x | Inr (d1, h1) \<Rightarrow> runEnginesInPlace engines is d1 h1)"
| "runEnginesInPlace engines is d h = Inr (d, h)"

definition decodeInPlace ::
  "'h decEngInPlace list \<Rightarrow> byte list \<Rightarrow> int \<Rightarrow> addr list \<Rightarrow> Decoder \<Rightarrow> 'h
   \<Rightarrow> (panic \<times> Decoder \<times> 'h) + (int \<times> Decoder \<times> 'h)" where
  "decodeInPlace engines buf n is d h =
     (case runEnginesInPlace engines is (d\<lparr>bufmem := buf, buflen := n\<rparr>) h of
        Inl x \<Rightarrow> Inl x
      | Inr (d1, h1) \<Rightarrow> (let (n, d2) = reset d1 in Inr (n, d2, h1)))"


section \<open>The engine compiler\<close>

subsection \<open>Types as the compiler sees them\<close>

text \<open>
  A \<open>reflect.Type\<close> is a node of the program's type graph, named by a number; the
  graph is the list \<open>env\<close> of the nodes' descriptions, and a number outside the list
  is the invalid type. A description is the type's \<open>Kind()\<close> with what the compiler
  reads of it: \<open>Elem()\<close>, \<open>Len()\<close>, \<open>Key()\<close>, the fields, \<open>NumMethod()\<close>. A type
  that refers to itself, as \<open>type Node struct { next *Node }\<close> does, is a cycle of the
  graph.

  A field carries the value of its \<open>gotiny\<close> tag if it has one, its offset, its type,
  and, when that type is of kind struct, the fields of that type: Go rejects a struct
  that contains itself by value, so the fields reached by value form a finite tree.
\<close>

type_synonym tid = nat

datatype basicKind =
    KBool | KInt | KInt8 | KInt16 | KInt32 | KInt64
  | KUint | KUint8 | KUint16 | KUint32 | KUint64 | KUintptr
  | KFloat32 | KFloat64 | KComplex64 | KComplex128 | KString

datatype sfield =
  StructField (ftag: "string option") (foffset: nat) (ftype: tid) (fstruct: "sfield list option")

datatype typeDesc =
    TInvalid
  | TBasic basicKind
  | TPtr tid
  | TArray nat tid
  | TSlice tid
  | TMap tid tid
  | TStruct "sfield list"
  | TInterface nat
  | TChan
  | TFunc
  | TUnsafePointer

definition typeOf :: "typeDesc list \<Rightarrow> tid \<Rightarrow> typeDesc" where
  "typeOf env rt = (if rt < length env then env ! rt else TInvalid)"

text \<open>
  An engine is a closure; here it is the name of the function of the engine table, or
  the case of the compiler that built it together with what the closure captured. A
  captured engine variable (\<open>encodingEngine\<close>, \<open>kEng\<close>, \<open>fEngines[i]\<close>) is the type
  whose engine the deferred build stores in it.
\<close>

datatype decEngine =
    DecBool | DecInt | DecInt8 | DecInt16 | DecInt32 | DecInt64
  | DecUint | DecUint8 | DecUint16 | DecUint32 | DecUint64 | DecUintptr
  | DecFloat32 | DecFloat64 | DecComplex64 | DecComplex128 | DecString
  | DecBytes | DecTime | DecIgnore
  | DecSerializer tid | DecBinary tid | DecGob tid
  | DecPtr tid
  | DecArray nat tid
  | DecSlice tid
  | DecMap tid tid
  | DecStruct "tid list" "nat list"
  | DecInterface

datatype encEngine =
    EncBool | EncInt | EncInt8 | EncInt16 | EncInt32 | EncInt64
  | EncUint | EncUint8 | EncUint16 | EncUint32 | EncUint64 | EncUintptr
  | EncFloat32 | EncFloat64 | EncComplex64 | EncComplex128 | EncString
  | EncBytes | EncTime | EncIgnore
  | EncSerializer tid | EncBinary tid | EncGob tid
  | EncPtr tid
  | EncArray nat tid
  | EncSlice tid
  | EncMap tid tid
  | EncStruct "tid list" "nat list"
  | EncInterfaceMethods
  | EncInterfaceAny

type_synonym decCache = "tid \<rightharpoonup> decEngine"

type_synonym encCache = "tid \<rightharpoonup> encEngine"

fun decEngines :: "basicKind \<Rightarrow> decEngine" where
  "decEngines KBool = DecBool"
| "decEngines KInt = DecInt"
| "decEngines KInt8 = DecInt8"
| "decEngines KInt16 = DecInt16"
| "decEngines KInt32 = DecInt32"
| "decEngines KInt64 = DecInt64"
| "decEngines KUint = DecUint"
| "decEngines KUint8 = DecUint8"
| "decEngines KUint16 = DecUint16"
| "decEngines KUint32 = DecUint32"
| "decEngines KUint64 = DecUint64"
| "decEngines KUintptr = DecUintptr"
| "decEngines KFloat32 = DecFloat32"
| "decEngines KFloat64 = DecFloat64"
| "decEngines KComplex64 = DecComplex64"
| "decEngines KComplex128 = DecComplex128"
| "decEngines KString = DecString"

fun encEngines :: "basicKind \<Rightarrow> encEngine" where
  "encEngines KBool = EncBool"
| "encEngines KInt = EncInt"
| "encEngines KInt8 = EncInt8"
| "encEngines KInt16 = EncInt16"
| "encEngines KInt32 = EncInt32"
| "encEngines KInt64 = EncInt64"
| "encEngines KUint = EncUint"
| "encEngines KUint8 = EncUint8"
| "encEngines KUint16 = EncUint16"
| "encEngines KUint32 = EncUint32"
| "encEngines KUint64 = EncUint64"
| "encEngines KUintptr = EncUintptr"
| "encEngines KFloat32 = EncFloat32"
| "encEngines KFloat64 = EncFloat64"
| "encEngines KComplex64 = EncComplex64"
| "encEngines KComplex128 = EncComplex128"
| "encEngines KString = EncString"

subsection \<open>Struct fields\<close>

text \<open>
  \<open>strings.TrimSpace\<close> and \<open>ignoreField\<close>. A Go string is its bytes, and the white
  space that \<open>TrimSpace\<close> removes at both ends is that of \<open>unicode.IsSpace\<close> in UTF-8:
  the six ASCII characters, U+0085, U+00A0, U+1680, U+2000 to U+200A, U+2028, U+2029,
  U+202F, U+205F and U+3000. \<open>trimPrefixes ws\<close> removes leading members of \<open>ws\<close> as
  long as there is one.
\<close>

definition whiteSpace :: "string list" where
  "whiteSpace =
     [[CHR 0x09], [CHR 0x0A], [CHR 0x0B], [CHR 0x0C], [CHR 0x0D], [CHR 0x20],
      [CHR 0xC2, CHR 0x85], [CHR 0xC2, CHR 0xA0], [CHR 0xE1, CHR 0x9A, CHR 0x80],
      [CHR 0xE2, CHR 0x80, CHR 0x80], [CHR 0xE2, CHR 0x80, CHR 0x81],
      [CHR 0xE2, CHR 0x80, CHR 0x82], [CHR 0xE2, CHR 0x80, CHR 0x83],
      [CHR 0xE2, CHR 0x80, CHR 0x84], [CHR 0xE2, CHR 0x80, CHR 0x85],
      [CHR 0xE2, CHR 0x80, CHR 0x86], [CHR 0xE2, CHR 0x80, CHR 0x87],
      [CHR 0xE2, CHR 0x80, CHR 0x88], [CHR 0xE2, CHR 0x80, CHR 0x89],
      [CHR 0xE2, CHR 0x80, CHR 0x8A], [CHR 0xE2, CHR 0x80, CHR 0xA8],
      [CHR 0xE2, CHR 0x80, CHR 0xA9], [CHR 0xE2, CHR 0x80, CHR 0xAF],
      [CHR 0xE2, CHR 0x81, CHR 0x9F], [CHR 0xE3, CHR 0x80, CHR 0x80]]"

function trimPrefixes :: "string list \<Rightarrow> string \<Rightarrow> string" where
  "trimPrefixes ws str =
     (case find (\<lambda>w. w \<noteq> [] \<and> take (length w) str = w) ws of
        None \<Rightarrow> str
      | Some w \<Rightarrow> trimPrefixes ws (drop (length w) str))"
  by pat_completeness auto

termination
  apply (relation "measure (\<lambda>(ws, str). length str)")
   apply simp
  apply (clarsimp simp: find_Some_iff)
  subgoal for ws str i
    by (cases "ws ! i"; cases str) auto
  done

declare trimPrefixes.simps [simp del]

definition TrimSpace :: "string \<Rightarrow> string" where
  "TrimSpace str = rev (trimPrefixes (map rev whiteSpace) (rev (trimPrefixes whiteSpace str)))"

definition ignoreField :: "sfield \<Rightarrow> bool" where
  "ignoreField field =
     (case ftag field of None \<Rightarrow> False | Some tinyTag \<Rightarrow> TrimSpace tinyTag = ''-'')"

text \<open>
  \<open>getFieldType\<close>, on the fields of the struct type. \<open>ios\<close> is
  \<open>implementOtherSerializer\<close>: the pair of engines of a type that has one of the
  three pairs of methods, \<open>None\<close> (both results nil) for any other type.
\<close>

fun getFieldType :: "(tid \<Rightarrow> 'e option) \<Rightarrow> sfield list \<Rightarrow> nat \<Rightarrow> tid list \<times> nat list" where
  "getFieldType ios [] baseOff = ([], [])"
| "getFieldType ios (StructField tag off ft sub # rest) baseOff =
     (let (flds, offs) =
        (if ignoreField (StructField tag off ft sub) then ([], [])
         else (case sub of
                 Some subFields \<Rightarrow>
                   (if ios ft = None then getFieldType ios subFields (off + baseOff)
                    else ([ft], [off + baseOff]))
               | None \<Rightarrow> ([ft], [off + baseOff])));
          (flds1, offs1) = getFieldType ios rest baseOff
      in (flds @ flds1, offs @ offs1))"

subsection \<open>Building engines\<close>

text \<open>
  \<open>buildDecEngine\<close> and \<open>buildEncEngine\<close>. The cache \<open>rt2decEng\<close> is passed and
  returned. The first argument bounds the depth of the recursion: a build that would
  go deeper has no result (\<open>None\<close>). A result is the cache, the engine stored through
  \<open>engPtr\<close> if one was, and the panic that leaves the call if there is one.

  A deferred call runs when the function returns, so after the cache entry of the type
  is written; the deferred calls of one frame run last in, first out, also once one of
  them has panicked, and the panic raised last is the one that leaves the frame. The
  loop over the fields of a struct is one deferred closure, which its first panic ends.
\<close>

definition deferredDec ::
  "decEngine \<Rightarrow> (decCache \<times> decEngine option \<times> panic option) option
   \<Rightarrow> (decCache \<times> decEngine option \<times> panic option) option" where
  "deferredDec engine r =
     (case r of None \<Rightarrow> None | Some (c1, _, p) \<Rightarrow> Some (c1, Some engine, p))"

fun buildDecEngine ::
  "nat \<Rightarrow> typeDesc list \<Rightarrow> (tid \<Rightarrow> (encEngine \<times> decEngine) option) \<Rightarrow> tid \<Rightarrow> decCache
   \<Rightarrow> (decCache \<times> decEngine option \<times> panic option) option"
and buildDecFields ::
  "nat \<Rightarrow> typeDesc list \<Rightarrow> (tid \<Rightarrow> (encEngine \<times> decEngine) option) \<Rightarrow> tid list \<Rightarrow> decCache
   \<Rightarrow> (decCache \<times> panic option) option" where
  "buildDecEngine 0 env ios rt c = None"
| "buildDecEngine (Suc n) env ios rt c =
     (case c rt of
        Some engine \<Rightarrow> Some (c, Some engine, None)
      | None \<Rightarrow>
     (case ios rt of
        Some (_, engine) \<Rightarrow> Some (c(rt \<mapsto> engine), Some engine, None)
      | None \<Rightarrow>
     (case typeOf env rt of
        TPtr elementType \<Rightarrow>
          deferredDec (DecPtr elementType)
            (buildDecEngine n env ios elementType (c(rt \<mapsto> DecPtr elementType)))
      | TArray l elementType \<Rightarrow>
          deferredDec (DecArray l elementType)
            (buildDecEngine n env ios elementType (c(rt \<mapsto> DecArray l elementType)))
      | TSlice elementType \<Rightarrow>
          deferredDec (DecSlice elementType)
            (buildDecEngine n env ios elementType (c(rt \<mapsto> DecSlice elementType)))
      | TMap keyType valueType \<Rightarrow>
          (case buildDecEngine n env ios valueType (c(rt \<mapsto> DecMap keyType valueType)) of
             None \<Rightarrow> None
           | Some (c1, _, p1) \<Rightarrow>
          (case buildDecEngine n env ios keyType c1 of
             None \<Rightarrow> None
           | Some (c2, _, p2) \<Rightarrow>
               Some (c2, Some (DecMap keyType valueType),
                     (case p2 of Some p \<Rightarrow> Some p | None \<Rightarrow> p1))))
      | TStruct sfields \<Rightarrow>
          (let (flds, offs) = getFieldType ios sfields 0 in
           case buildDecFields n env ios flds (c(rt \<mapsto> DecStruct flds offs)) of
             None \<Rightarrow> None
           | Some (c1, p) \<Rightarrow> Some (c1, Some (DecStruct flds offs), p))
      | TInterface numMethod \<Rightarrow>
          Some (c(rt \<mapsto> DecInterface), Some DecInterface, None)
      | TChan \<Rightarrow> Some (c, None, Some (NotSupportType rt))
      | TFunc \<Rightarrow> Some (c, None, Some (NotSupportType rt))
      | TInvalid \<Rightarrow> Some (c, None, Some (NotSupportType rt))
      | TUnsafePointer \<Rightarrow> Some (c, None, Some (NotSupportType rt))
      | TBasic kind \<Rightarrow> Some (c(rt \<mapsto> decEngines kind), Some (decEngines kind), None))))"
| "buildDecFields n env ios [] c = Some (c, None)"
| "buildDecFields n env ios (f # fs) c =
     (case buildDecEngine n env ios f c of
        None \<Rightarrow> None
      | Some (c1, _, Some p) \<Rightarrow> Some (c1, Some p)
      | Some (c1, _, None) \<Rightarrow> buildDecFields n env ios fs c1)"

definition getDecEngine ::
  "nat \<Rightarrow> typeDesc list \<Rightarrow> (tid \<Rightarrow> (encEngine \<times> decEngine) option) \<Rightarrow> tid \<Rightarrow> decCache
   \<Rightarrow> (decCache \<times> decEngine option \<times> panic option) option" where
  "getDecEngine n env ios rt c =
     (case c rt of
        Some engine \<Rightarrow> Some (c, Some engine, None)
      | None \<Rightarrow> buildDecEngine n env ios rt c)"

definition deferredEnc ::
  "encEngine \<Rightarrow> (encCache \<times> encEngine option \<times> panic option) option
   \<Rightarrow> (encCache \<times> encEngine option \<times> panic option) option" where
  "deferredEnc engine r =
     (case r of None \<Rightarrow> None | Some (c1, _, p) \<Rightarrow> Some (c1, Some engine, p))"

fun buildEncEngine ::
  "nat \<Rightarrow> typeDesc list \<Rightarrow> (tid \<Rightarrow> (encEngine \<times> decEngine) option) \<Rightarrow> tid \<Rightarrow> encCache
   \<Rightarrow> (encCache \<times> encEngine option \<times> panic option) option"
and buildEncFields ::
  "nat \<Rightarrow> typeDesc list \<Rightarrow> (tid \<Rightarrow> (encEngine \<times> decEngine) option) \<Rightarrow> tid list \<Rightarrow> encCache
   \<Rightarrow> (encCache \<times> panic option) option" where
  "buildEncEngine 0 env ios rt c = None"
| "buildEncEngine (Suc n) env ios rt c =
     (case c rt of
        Some engine \<Rightarrow> Some (c, Some engine, None)
      | None \<Rightarrow>
     (case ios rt of
        Some (engine, _) \<Rightarrow> Some (c(rt \<mapsto> engine), Some engine, None)
      | None \<Rightarrow>
     (case typeOf env rt of
        TPtr elementType \<Rightarrow>
          deferredEnc (EncPtr elementType)
            (buildEncEngine n env ios elementType (c(rt \<mapsto> EncPtr elementType)))
      | TArray l elementType \<Rightarrow>
          deferredEnc (EncArray l elementType)
            (buildEncEngine n env ios elementType (c(rt \<mapsto> EncArray l elementType)))
      | TSlice elementType \<Rightarrow>
          deferredEnc (EncSlice elementType)
            (buildEncEngine n env ios elementType (c(rt \<mapsto> EncSlice elementType)))
      | TMap keyType valueType \<Rightarrow>
          (case buildEncEngine n env ios valueType (c(rt \<mapsto> EncMap keyType valueType)) of
             None \<Rightarrow> None
           | Some (c1, _, p1) \<Rightarrow>
          (case buildEncEngine n env ios keyType c1 of
             None \<Rightarrow> None
           | Some (c2, _, p2) \<Rightarrow>
               Some (c2, Some (EncMap keyType valueType),
                     (case p2 of Some p \<Rightarrow> Some p | None \<Rightarrow> p1))))
      | TStruct sfields \<Rightarrow>
          (let (flds, offs) = getFieldType ios sfields 0 in
           case buildEncFields n env ios flds (c(rt \<mapsto> EncStruct flds offs)) of
             None \<Rightarrow> None
           | Some (c1, p) \<Rightarrow> Some (c1, Some (EncStruct flds offs), p))
      | TInterface numMethod \<Rightarrow>
          (if numMethod > 0
           then Some (c(rt \<mapsto> EncInterfaceMethods), Some EncInterfaceMethods, None)
           else Some (c(rt \<mapsto> EncInterfaceAny), Some EncInterfaceAny, None))
      | TChan \<Rightarrow> Some (c, None, Some (NotSupportType rt))
      | TFunc \<Rightarrow> Some (c, None, Some (NotSupportType rt))
      | TInvalid \<Rightarrow> Some (c, None, Some (NotSupportType rt))
      | TUnsafePointer \<Rightarrow> Some (c, None, Some (NotSupportType rt))
      | TBasic kind \<Rightarrow> Some (c(rt \<mapsto> encEngines kind), Some (encEngines kind), None))))"
| "buildEncFields n env ios [] c = Some (c, None)"
| "buildEncFields n env ios (f # fs) c =
     (case buildEncEngine n env ios f c of
        None \<Rightarrow> None
      | Some (c1, _, Some p) \<Rightarrow> Some (c1, Some p)
      | Some (c1, _, None) \<Rightarrow> buildEncFields n env ios fs c1)"

definition getEncEngine ::
  "nat \<Rightarrow> typeDesc list \<Rightarrow> (tid \<Rightarrow> (encEngine \<times> decEngine) option) \<Rightarrow> tid \<Rightarrow> encCache
   \<Rightarrow> (encCache \<times> encEngine option \<times> panic option) option" where
  "getEncEngine n env ios rt c =
     (case c rt of
        Some engine \<Rightarrow> Some (c, Some engine, None)
      | None \<Rightarrow> buildEncEngine n env ios rt c)"


section \<open>The type registry\<close>

subsection \<open>Types as \<open>getName\<close> sees them\<close>

text \<open>
  \<open>getName\<close> descends through unnamed types only and stops at a named one, whose
  \<open>PkgPath()\<close> and \<open>Name()\<close> are all it reads; so here a \<open>reflect.Type\<close> is the
  finite tree above its named types. A named type is \<open>Named decl pkgPath name\<close>:
  \<open>decl\<close> stands for its declaration, since two declarations (types local to two
  functions of one package) can have the same \<open>PkgPath()\<close> and \<open>Name()\<close> and are two
  types. \<open>Nil\<close> is the nil type. A struct field has its
  name, whether it is embedded, its tag and its type; a method of an interface type
  has its name and the parameters and results of its function type. An unnamed
  channel type has the empty \<open>Name()\<close> and \<open>PkgPath()\<close> and no case in the switch.
\<close>

datatype rtype =
    Nil
  | Named nat string string
  | PtrTo rtype
  | ArrayOf nat rtype
  | SliceOf rtype
  | StructOf "structField list"
  | MapOf rtype rtype
  | InterfaceOf "imethod list"
  | FuncOf "rtype list" "rtype list" bool
  | ChanOf rtype
and structField =
    Field (fieldName: string) (fieldAnonymous: bool) (fieldTag: string) (fieldType: rtype)
and imethod =
    Method (methodName: string) (methodIn: "rtype list") (methodOut: "rtype list")
      (methodVariadic: bool)

text \<open>\<open>strconv.Itoa\<close>: the decimal digits, after a minus sign for a negative number.\<close>

fun digitsOf :: "nat \<Rightarrow> string" where
  "digitsOf n =
     (if n < 10 then [char_of (48 + n)]
      else digitsOf (n div 10) @ [char_of (48 + n mod 10)])"

declare digitsOf.simps [simp del]

definition Itoa :: "int \<Rightarrow> string" where
  "Itoa i = (if i < 0 then CHR ''-'' # digitsOf (nat (- i)) else digitsOf (nat i))"

text \<open>
  \<open>getName\<close>. Its loops are \<open>getNameFields\<close> (the fields of a struct type),
  \<open>getNameMethods\<close> (the methods of an interface type) and \<open>getNameTypes\<close> (the
  parameters, and the results, of a function type), each on what is left of the list;
  \<open>getNameFunc\<close> is the case of a function type, which the loop over the methods
  calls on \<open>method.Type\<close>.
\<close>

function (sequential) getName :: "string \<Rightarrow> rtype \<Rightarrow> string"
and getNameFields :: "string \<Rightarrow> structField list \<Rightarrow> string"
and getNameMethods :: "string \<Rightarrow> imethod list \<Rightarrow> string"
and getNameFunc :: "string \<Rightarrow> rtype list \<Rightarrow> rtype list \<Rightarrow> string"
and getNameTypes :: "string \<Rightarrow> rtype list \<Rightarrow> string" where
  "getName prefix Nil = prefix @ ''<nil>''"
| "getName prefix (PtrTo elem) = getName (prefix @ ''*'') elem"
| "getName prefix (ArrayOf n elem) = getName (prefix @ ''['' @ Itoa (int n) @ '']'') elem"
| "getName prefix (SliceOf elem) = getName (prefix @ ''[]'') elem"
| "getName prefix (StructOf flds) =
     (let prefix = prefix @ ''struct {'';
          prefix = (if length flds > 0 then prefix @ '' '' else prefix)
      in getNameFields prefix flds @ ''}'')"
| "getName prefix (MapOf key elem) =
     getName (getName (prefix @ ''map['') key @ '']'') elem"
| "getName prefix (InterfaceOf methods) =
     (let prefix = prefix @ ''interface {'';
          prefix = (if length methods > 0 then prefix @ '' '' else prefix)
      in getNameMethods prefix methods @ ''}'')"
| "getName prefix (FuncOf ins outs variadic) = getNameFunc prefix ins outs"
| "getName prefix (ChanOf elem) = prefix @ ''''"
| "getName prefix (Named decl pkgPath name) =
     (if pkgPath = '''' then prefix @ name else prefix @ pkgPath @ ''.'' @ name)"
| "getNameFields prefix [] = prefix"
| "getNameFields prefix (field # rest) =
     (let prefix = (if fieldAnonymous field then getName prefix (fieldType field)
                    else getName (prefix @ fieldName field @ '' '') (fieldType field));
          prefix = (if rest \<noteq> [] then prefix @ ''; '' else prefix @ '' '')
      in getNameFields prefix rest)"
| "getNameMethods prefix [] = prefix"
| "getNameMethods prefix (method # rest) =
     (let fn = getNameFunc [] (methodIn method) (methodOut method);
          prefix = prefix @ methodName method @ drop 4 fn;
          prefix = (if rest \<noteq> [] then prefix @ ''; '' else prefix @ '' '')
      in getNameMethods prefix rest)"
| "getNameFunc prefix ins outs =
     (let prefix = getNameTypes (prefix @ ''func('') ins;
          prefix = prefix @ '')'';
          no = length outs;
          prefix = (if no > 0 then prefix @ '' '' else prefix);
          prefix = (if no > 1 then prefix @ ''('' else prefix);
          prefix = getNameTypes prefix outs;
          prefix = (if no > 1 then prefix @ '')'' else prefix)
      in prefix)"
| "getNameTypes prefix [] = prefix"
| "getNameTypes prefix (t # rest) =
     (let prefix = getName prefix t;
          prefix = (if rest \<noteq> [] then prefix @ '', '' else prefix)
      in getNameTypes prefix rest)"

  by pat_completeness auto

termination
  apply (relation "measure (\<lambda>x. case x of
            Inl (Inl (p, t)) \<Rightarrow> 2 * size t
          | Inl (Inr (p, fs)) \<Rightarrow> 2 * size_list size fs
          | Inr (Inl (p, ms)) \<Rightarrow> 2 * size_list size ms
          | Inr (Inr (Inl (p, ins, outs))) \<Rightarrow> 2 * (size_list size ins + size_list size outs) + 1
          | Inr (Inr (Inr (p, ts))) \<Rightarrow> 2 * size_list size ts)")
  apply simp_all
  subgoal for f r by (cases f) simp
  subgoal for f r by (cases f) simp
  subgoal for m r by (cases m) simp
  done

definition GetNameByType :: "rtype \<Rightarrow> string" where
  "GetNameByType rt = getName [] rt"

text \<open>
  The types on which names are compared below: named types, and pointers, arrays,
  slices and maps over them. The named types are those whose name is not empty and
  has no dot, and whose package path and name have none of the characters \<open>*\<close>,
  \<open>[\<close> and \<open>]\<close> (so not the instances of generic types).
\<close>

definition nameChar :: "char \<Rightarrow> bool" where
  "nameChar ch = (ch \<noteq> CHR ''*'' \<and> ch \<noteq> CHR ''['' \<and> ch \<noteq> CHR '']'')"

definition cleanNamed :: "string \<Rightarrow> string \<Rightarrow> bool" where
  "cleanNamed pkgPath name =
     (name \<noteq> [] \<and> CHR ''.'' \<notin> set name \<and> list_all nameChar (pkgPath @ name))"

fun simpleType :: "rtype \<Rightarrow> bool" where
  "simpleType (Named decl pkgPath name) = cleanNamed pkgPath name"
| "simpleType (PtrTo elem) = simpleType elem"
| "simpleType (ArrayOf n elem) = simpleType elem"
| "simpleType (SliceOf elem) = simpleType elem"
| "simpleType (MapOf key elem) = (simpleType key \<and> simpleType elem)"
| "simpleType t = False"

subsection \<open>Registration\<close>

text \<open>The two global tables \<open>type2name\<close> and \<open>name2type\<close>.\<close>

record Registry =
  type2name :: "rtype \<rightharpoonup> string"
  name2type :: "string \<rightharpoonup> rtype"

definition emptyRegistry :: Registry where
  "emptyRegistry = \<lparr>type2name = Map.empty, name2type = Map.empty\<rparr>"

definition RegisterName :: "string \<Rightarrow> rtype \<Rightarrow> Registry \<Rightarrow> panic + Registry" where
  "RegisterName name rt reg =
     (if name = [] then Inl (Panic ''attempt to register empty name'')
      else if rt = Nil then Inl (Panic ''attempt to register nil type or invalid type'')
      else if type2name reg rt \<noteq> None
        then Inl (Panic (''gotiny: registering duplicate types for '' @ GetNameByType rt))
      else if name2type reg name \<noteq> None
        then Inl (Panic (''gotiny: registering name'' @ name @ '' is exist''))
      else Inr (reg\<lparr>name2type := (name2type reg)(name \<mapsto> rt),
                      type2name := (type2name reg)(rt \<mapsto> name)\<rparr>))"

definition registerType :: "rtype \<Rightarrow> Registry \<Rightarrow> panic + (string \<times> Registry)" where
  "registerType rt reg =
     (let name = GetNameByType rt
      in bindE (RegisterName name rt reg) (\<lambda>reg1. Inr (name, reg1)))"

definition Register :: "rtype \<Rightarrow> Registry \<Rightarrow> panic + (string \<times> Registry)" where
  "Register i reg = registerType i reg"

definition getNameOfType :: "rtype \<Rightarrow> Registry \<Rightarrow> panic + (string \<times> Registry)" where
  "getNameOfType rt reg =
     (case type2name reg rt of
        Some name \<Rightarrow> Inr (name, reg)
      | None \<Rightarrow> registerType rt reg)"

text \<open>
  The operations that write the registry, and a run of them from the empty registry.
  A panic leaves both tables as they were: the two writes are the last statements of
  \<open>RegisterName\<close>.
\<close>

datatype registryOp = OpRegisterName string rtype | OpRegister rtype | OpGetNameOfType rtype

fun applyOp :: "registryOp \<Rightarrow> Registry \<Rightarrow> Registry" where
  "applyOp (OpRegisterName name rt) reg =
     (case RegisterName name rt reg of Inl e \<Rightarrow> reg | Inr reg1 \<Rightarrow> reg1)"
| "applyOp (OpRegister rt) reg =
     (case Register rt reg of Inl e \<Rightarrow> reg | Inr (name, reg1) \<Rightarrow> reg1)"
| "applyOp (OpGetNameOfType rt) reg =
     (case getNameOfType rt reg of Inl e \<Rightarrow> reg | Inr (name, reg1) \<Rightarrow> reg1)"

definition runOps :: "registryOp list \<Rightarrow> Registry" where
  "runOps ops = fold applyOp ops emptyRegistry"


section \<open>Zigzag\<close>

lemma neg_and_one:
  fixes w :: "'a::len word"
  shows "- (w AND 1) = (if bit w 0 then - 1 else 0)"
  by (simp add: and_one_eq bit_0 mod_2_eq_odd)

lemma bit_times2:
  fixes v :: "'a::len word"
  shows "bit (v * 2) n = (n \<noteq> 0 \<and> n < LENGTH('a) \<and> bit v (n - 1))"
  using bit_double_iff[of v n] by (auto simp: mult.commute bit_simps dest: bit_imp_le_length)

lemma top_index:
  "n < LENGTH('a::len) \<Longrightarrow> LENGTH('a) - Suc 0 \<le> n \<Longrightarrow> n = LENGTH('a) - Suc 0"
  by simp

lemma only_index: "n < LENGTH('a::len) \<Longrightarrow> \<not> Suc 0 < LENGTH('a) \<Longrightarrow> n = 0"
  by simp

lemma zigzag_word:
  fixes v :: "'a::len word"
  shows "(- ((push_bit 1 v XOR signed_drop_bit (LENGTH('a) - 1) v) AND 1)) XOR
         (signed_drop_bit 1 (push_bit 1 v XOR signed_drop_bit (LENGTH('a) - 1) v)
            AND mask (LENGTH('a) - 1)) = v"
  unfolding neg_and_one
  apply (rule bit_word_eqI)
  apply (auto simp: bit_simps bit_times2 dest: top_index only_index)
  done

lemma zigzag16: "uint16ToInt16 (int16ToUint16 v) = v"
  unfolding uint16ToInt16_def int16ToUint16_def Let_def
  using zigzag_word[of v] by (simp add: mask_eq_exp_minus_1)

lemma zigzag32: "uint32ToInt32 (int32ToUint32 v) = v"
  unfolding uint32ToInt32_def int32ToUint32_def Let_def
  using zigzag_word[of v] by (simp add: mask_eq_exp_minus_1)

lemma zigzag64: "uint64ToInt64 (int64ToUint64 v) = v"
  unfolding uint64ToInt64_def int64ToUint64_def Let_def
  using zigzag_word[of v] by (simp add: mask_eq_exp_minus_1)

text \<open>
  Claim C2. For each signed width (16, 32, 64 bits) the zigzag mapping sends \<open>v\<close> to
  \<open>(v << 1) XOR (v >> (width - 1))\<close> with the arithmetic shift; it sends 0 to 0, -1 to 1
  and 1 to 2; and the decode-side mapping undoes it on every value of the width.
\<close>

theorem zigzag_roundtrip:
  "int16ToUint16 a = push_bit 1 a XOR signed_drop_bit 15 a \<and>
   int32ToUint32 b = push_bit 1 b XOR signed_drop_bit 31 b \<and>
   int64ToUint64 c = push_bit 1 c XOR signed_drop_bit 63 c \<and>
   int16ToUint16 0 = 0 \<and> int16ToUint16 (- 1) = 1 \<and> int16ToUint16 1 = 2 \<and>
   int32ToUint32 0 = 0 \<and> int32ToUint32 (- 1) = 1 \<and> int32ToUint32 1 = 2 \<and>
   int64ToUint64 0 = 0 \<and> int64ToUint64 (- 1) = 1 \<and> int64ToUint64 1 = 2 \<and>
   uint16ToInt16 (int16ToUint16 a) = a \<and>
   uint32ToInt32 (int32ToUint32 b) = b \<and>
   uint64ToInt64 (int64ToUint64 c) = c"
  by (simp add: zigzag16 zigzag32 zigzag64)
     (simp add: int16ToUint16_def int32ToUint32_def int64ToUint64_def)

section \<open>The floating-point transform\<close>

lemma lt8_cases:
  "n < (8::nat) \<Longrightarrow> n = 0 \<or> n = 1 \<or> n = 2 \<or> n = 3 \<or> n = 4 \<or> n = 5 \<or> n = 6 \<or> n = 7"
  by arith

lemma lt4_cases: "n < (4::nat) \<Longrightarrow> n = 0 \<or> n = 1 \<or> n = 2 \<or> n = 3"
  by arith

lemma no_bit64: "64 \<le> n \<Longrightarrow> bit (u :: 64 word) n = False"
  by (auto dest: bit_imp_le_length)

lemma no_bit32: "32 \<le> n \<Longrightarrow> bit (u :: 32 word) n = False"
  by (auto dest: bit_imp_le_length)

lemma reverse64Byte_bit_qr:
  assumes "q < 8" "r < 8"
  shows "bit (reverse64Byte u) (8 * q + r) = bit u (8 * (7 - q) + r)"
proof -
  have r: "r = 0 \<or> r = 1 \<or> r = 2 \<or> r = 3 \<or> r = 4 \<or> r = 5 \<or> r = 6 \<or> r = 7"
    by (rule lt8_cases[OF assms(2)])
  from lt8_cases[OF assms(1)] show ?thesis
  proof (elim disjE)
  
    assume "q = 0" with r show ?thesis
      by (elim disjE; simp add: reverse64Byte_def Let_def bit_simps no_bit64 numeral_2_eq_2[symmetric])
  next
    assume "q = 1" with r show ?thesis
      by (elim disjE; simp add: reverse64Byte_def Let_def bit_simps no_bit64 numeral_2_eq_2[symmetric])
  next
    assume "q = 2" with r show ?thesis
      by (elim disjE; simp add: reverse64Byte_def Let_def bit_simps no_bit64 numeral_2_eq_2[symmetric])
  next
    assume "q = 3" with r show ?thesis
      by (elim disjE; simp add: reverse64Byte_def Let_def bit_simps no_bit64 numeral_2_eq_2[symmetric])
  next
    assume "q = 4" with r show ?thesis
      by (elim disjE; simp add: reverse64Byte_def Let_def bit_simps no_bit64 numeral_2_eq_2[symmetric])
  next
    assume "q = 5" with r show ?thesis
      by (elim disjE; simp add: reverse64Byte_def Let_def bit_simps no_bit64 numeral_2_eq_2[symmetric])
  next
    assume "q = 6" with r show ?thesis
      by (elim disjE; simp add: reverse64Byte_def Let_def bit_simps no_bit64 numeral_2_eq_2[symmetric])
  next
    assume "q = 7" with r show ?thesis
      by (elim disjE; simp add: reverse64Byte_def Let_def bit_simps no_bit64 numeral_2_eq_2[symmetric])
  qed
qed

lemma reverse32Byte_bit_qr:
  assumes "q < 4" "r < 8"
  shows "bit (reverse32Byte u) (8 * q + r) = bit u (8 * (3 - q) + r)"
proof -
  have r: "r = 0 \<or> r = 1 \<or> r = 2 \<or> r = 3 \<or> r = 4 \<or> r = 5 \<or> r = 6 \<or> r = 7"
    by (rule lt8_cases[OF assms(2)])
  from lt4_cases[OF assms(1)] show ?thesis
  proof (elim disjE)
  
    assume "q = 0" with r show ?thesis
      by (elim disjE; simp add: reverse32Byte_def Let_def bit_simps no_bit32 numeral_2_eq_2[symmetric])
  next
    assume "q = 1" with r show ?thesis
      by (elim disjE; simp add: reverse32Byte_def Let_def bit_simps no_bit32 numeral_2_eq_2[symmetric])
  next
    assume "q = 2" with r show ?thesis
      by (elim disjE; simp add: reverse32Byte_def Let_def bit_simps no_bit32 numeral_2_eq_2[symmetric])
  next
    assume "q = 3" with r show ?thesis
      by (elim disjE; simp add: reverse32Byte_def Let_def bit_simps no_bit32 numeral_2_eq_2[symmetric])
  qed
qed

lemma reverse64Byte_bit:
  assumes "n < 64"
  shows "bit (reverse64Byte u) n = bit u (8 * (7 - n div 8) + n mod 8)"
proof -
  have a: "n div 8 < 8" using assms by simp
  have b: "n mod 8 < 8" by simp
  from reverse64Byte_bit_qr[OF a b, of u] show ?thesis by simp
qed

lemma reverse32Byte_bit:
  assumes "n < 32"
  shows "bit (reverse32Byte u) n = bit u (8 * (3 - n div 8) + n mod 8)"
proof -
  have a: "n div 8 < 4" using assms by simp
  have b: "n mod 8 < 8" by simp
  from reverse32Byte_bit_qr[OF a b, of u] show ?thesis by simp
qed

lemma reverse64Byte_involution: "reverse64Byte (reverse64Byte u) = u"
proof (rule bit_word_eqI)
  fix n assume "n < LENGTH(64)"
  then have n: "n < 64" by simp
  let ?m = "8 * (7 - n div 8) + n mod 8"
  have m: "?m < 64" using n by simp
  have d: "?m div 8 = 7 - n div 8" by simp
  have e: "?m mod 8 = n mod 8" by simp
  have "7 - (7 - n div 8) = n div 8" using n by simp
  then have "8 * (7 - ?m div 8) + ?m mod 8 = n" unfolding d e by simp
  then show "bit (reverse64Byte (reverse64Byte u)) n = bit u n"
    by (simp only: reverse64Byte_bit[OF n] reverse64Byte_bit[OF m])
qed

lemma reverse32Byte_involution: "reverse32Byte (reverse32Byte u) = u"
proof (rule bit_word_eqI)
  fix n assume "n < LENGTH(32)"
  then have n: "n < 32" by simp
  let ?m = "8 * (3 - n div 8) + n mod 8"
  have m: "?m < 32" using n by simp
  have d: "?m div 8 = 3 - n div 8" by simp
  have e: "?m mod 8 = n mod 8" by simp
  have "3 - (3 - n div 8) = n div 8" using n by simp
  then have "8 * (3 - ?m div 8) + ?m mod 8 = n" unfolding d e by simp
  then show "bit (reverse32Byte (reverse32Byte u)) n = bit u n"
    by (simp only: reverse32Byte_bit[OF n] reverse32Byte_bit[OF m])
qed

text \<open>The byte \<open>k\<close> of a word, counted from the least significant one.\<close>

lemma reverse64Byte_byte:
  assumes "k < 8"
  shows "(ucast (drop_bit (8 * k) (reverse64Byte u)) :: byte) = ucast (drop_bit (8 * (7 - k)) u)"
proof (rule bit_word_eqI)
  fix n assume "n < LENGTH(8)"
  then have n: "n < 8" by simp
  from reverse64Byte_bit_qr[OF assms n, of u]
  show "bit (ucast (drop_bit (8 * k) (reverse64Byte u)) :: byte) n
        = bit (ucast (drop_bit (8 * (7 - k)) u) :: byte) n"
    using n by (simp add: bit_simps)
qed

lemma reverse32Byte_byte:
  assumes "k < 4"
  shows "(ucast (drop_bit (8 * k) (reverse32Byte u)) :: byte) = ucast (drop_bit (8 * (3 - k)) u)"
proof (rule bit_word_eqI)
  fix n assume "n < LENGTH(8)"
  then have n: "n < 8" by simp
  from reverse32Byte_bit_qr[OF assms n, of u]
  show "bit (ucast (drop_bit (8 * k) (reverse32Byte u)) :: byte) n
        = bit (ucast (drop_bit (8 * (3 - k)) u) :: byte) n"
    using n by (simp add: bit_simps)
qed

lemma reverse64Byte_bytes:
  "map (\<lambda>k. (ucast (drop_bit (8 * k) (reverse64Byte u)) :: byte)) [0, 1, 2, 3, 4, 5, 6, 7]
   = rev (map (\<lambda>k. (ucast (drop_bit (8 * k) u) :: byte)) [0, 1, 2, 3, 4, 5, 6, 7])"
  using reverse64Byte_byte[of 0 u] reverse64Byte_byte[of 1 u] reverse64Byte_byte[of 2 u]
    reverse64Byte_byte[of 3 u] reverse64Byte_byte[of 4 u] reverse64Byte_byte[of 5 u]
    reverse64Byte_byte[of 6 u] reverse64Byte_byte[of 7 u]
  by simp

lemma reverse32Byte_bytes:
  "map (\<lambda>k. (ucast (drop_bit (8 * k) (reverse32Byte u)) :: byte)) [0, 1, 2, 3]
   = rev (map (\<lambda>k. (ucast (drop_bit (8 * k) u) :: byte)) [0, 1, 2, 3])"
  using reverse32Byte_byte[of 0 u] reverse32Byte_byte[of 1 u] reverse32Byte_byte[of 2 u]
    reverse32Byte_byte[of 3 u]
  by simp

text \<open>
  Claim C4. \<open>reverse64Byte\<close> and \<open>reverse32Byte\<close> reverse the order of the bytes of
  their argument (the bytes of the result, from the least significant one, are the
  bytes of the argument from the most significant one) and are involutions; so
  \<open>uint64ToFloat64\<close> after \<open>float64ToUint64\<close>, and \<open>uint32ToFloat32\<close> after
  \<open>float32ToUint32\<close>, give back the bit pattern they started from.
\<close>

theorem float_transform_roundtrip:
  "map (\<lambda>k. (ucast (drop_bit (8 * k) (reverse64Byte p)) :: byte)) [0, 1, 2, 3, 4, 5, 6, 7]
     = rev (map (\<lambda>k. (ucast (drop_bit (8 * k) p) :: byte)) [0, 1, 2, 3, 4, 5, 6, 7]) \<and>
   map (\<lambda>k. (ucast (drop_bit (8 * k) (reverse32Byte q)) :: byte)) [0, 1, 2, 3]
     = rev (map (\<lambda>k. (ucast (drop_bit (8 * k) q) :: byte)) [0, 1, 2, 3]) \<and>
   reverse64Byte (reverse64Byte p) = p \<and>
   reverse32Byte (reverse32Byte q) = q \<and>
   float64ToUint64 p = reverse64Byte p \<and>
   float32ToUint32 q = reverse32Byte q \<and>
   uint64ToFloat64 (float64ToUint64 p) = p \<and>
   uint32ToFloat32 (float32ToUint32 q) = q"
  unfolding uint64ToFloat64_def float64ToUint64_def uint32ToFloat32_def float32ToUint32_def
  by (simp only: reverse64Byte_bytes reverse32Byte_bytes reverse64Byte_involution
        reverse32Byte_involution simp_thms)


section \<open>Variable-length integers\<close>









lemma lo_group:
  assumes "b < (128 :: byte)"
  shows "b AND 0x7F = b"
proof -
  have "b AND mask 7 = b" using assms by (simp add: less_mask_eq)
  then show ?thesis by (simp add: mask_eq_exp_minus_1)
qed













































section \<open>The engine compiler terminates\<close>

text \<open>The types of the graph that have no engine in the cache yet.\<close>

lemma uncached_le: "card ({t. t < length (env :: typeDesc list)} - dom c) \<le> length env"
proof -
  have "card ({t. t < length env} - dom c) \<le> card {t. t < length env}"
    by (rule card_mono) auto
  then show ?thesis by simp
qed

lemma uncached_mono:
  "dom c \<subseteq> dom c1 \<Longrightarrow>
   card ({t. t < length (env :: typeDesc list)} - dom c1) \<le> card ({t. t < length env} - dom c)"
  by (rule card_mono) auto

lemma uncached_update:
  assumes "rt < length (env :: typeDesc list)" "c rt = None"
  shows "card ({t. t < length env} - dom (c(rt \<mapsto> e))) < card ({t. t < length env} - dom c)"
proof -
  have "{t. t < length env} - dom (c(rt \<mapsto> e)) = ({t. t < length env} - dom c) - {rt}"
    by auto
  moreover have "rt \<in> {t. t < length env} - dom c" using assms by (auto simp: dom_def)
  then have "card (({t. t < length env} - dom c) - {rt}) < card ({t. t < length env} - dom c)"
    by (intro card_Diff1_less) auto
  ultimately show ?thesis by simp
qed

lemma typeOf_valid: "typeOf env rt \<noteq> TInvalid \<Longrightarrow> rt < length env"
  by (auto simp: typeOf_def split: if_splits)

lemma buildDecFields_total_aux:
  assumes IH: "\<And>rt c. card ({t. t < length env} - dom c) < n \<Longrightarrow>
            \<exists>c1 e p. buildDecEngine n env ios rt c = Some (c1, e, p) \<and> c \<subseteq>\<^sub>m c1"
  shows "card ({t. t < length env} - dom c) < n \<Longrightarrow>
         \<exists>c1 p. buildDecFields n env ios fs c = Some (c1, p) \<and> c \<subseteq>\<^sub>m c1"
proof (induction fs arbitrary: c)
  case Nil
  then show ?case by simp
next
  case (Cons f fs)
  from IH[OF Cons.prems, of f] obtain c1 e p where
    b: "buildDecEngine n env ios f c = Some (c1, e, p)" and d: "c \<subseteq>\<^sub>m c1" by blast
  show ?case
  proof (cases p)
    case None
    have "card ({t. t < length env} - dom c1) < n"
      using uncached_mono[OF map_le_implies_dom_le[OF d], of env] Cons.prems by simp
    from Cons.IH[OF this] obtain c2 p2 where
      b2: "buildDecFields n env ios fs c1 = Some (c2, p2)" and d2: "c1 \<subseteq>\<^sub>m c2" by blast
    have "c \<subseteq>\<^sub>m c2" by (rule map_le_trans[OF d d2])
    then show ?thesis using b b2 None by auto
  next
    case (Some a)
    then show ?thesis using b d by simp
  qed
qed

lemma deferredDec_total:
  assumes "\<exists>c1 e p. r = Some (c1, e, p) \<and> c0 \<subseteq>\<^sub>m c1" "c \<subseteq>\<^sub>m c0"
  shows "\<exists>c1 e p. deferredDec engine r = Some (c1, e, p) \<and> c \<subseteq>\<^sub>m c1"
proof -
  from assms(1) obtain c1 e p where r: "r = Some (c1, e, p)" and d: "c0 \<subseteq>\<^sub>m c1" by blast
  have "c \<subseteq>\<^sub>m c1" by (rule map_le_trans[OF assms(2) d])
  then show ?thesis using r by (simp add: deferredDec_def)
qed

lemma buildDecEngine_total_aux:
  "card ({t. t < length env} - dom c) < n \<Longrightarrow>
   \<exists>c1 e p. buildDecEngine n env ios rt c = Some (c1, e, p) \<and> c \<subseteq>\<^sub>m c1"
proof (induction n arbitrary: rt c)
  case 0
  then show ?case by simp
next
  case (Suc n)
  show ?case
  proof (cases "c rt")
    case (Some e)
    then show ?thesis by simp
  next
    case miss: None
    have sub: "c \<subseteq>\<^sub>m c(rt \<mapsto> e)" for e
      using miss by (auto simp: map_le_def)
    show ?thesis
    proof (cases "ios rt")
      case (Some e)
      then show ?thesis using miss sub by (cases e) (simp del: fun_upd_apply)
    next
      case noser: None
      have step: "card ({t. t < length env} - dom (c(rt \<mapsto> e))) < n" if "typeOf env rt \<noteq> TInvalid" for e
        using uncached_update[of rt env c e, OF typeOf_valid[OF that] miss] Suc.prems by simp
      show ?thesis
      proof (cases "typeOf env rt")
        case (TPtr el)
        then have ne: "typeOf env rt \<noteq> TInvalid" by simp
        have eq: "buildDecEngine (Suc n) env ios rt c =
                  deferredDec (DecPtr el) (buildDecEngine n env ios el (c(rt \<mapsto> DecPtr el)))"
          using miss noser TPtr by simp
        show ?thesis unfolding eq
          by (rule deferredDec_total[OF Suc.IH[OF step[OF ne, of "DecPtr el"], of el] sub[of "DecPtr el"]])
      next
        case (TArray l el)
        then have ne: "typeOf env rt \<noteq> TInvalid" by simp
        have eq: "buildDecEngine (Suc n) env ios rt c =
                  deferredDec (DecArray l el) (buildDecEngine n env ios el (c(rt \<mapsto> DecArray l el)))"
          using miss noser TArray by simp
        show ?thesis unfolding eq
          by (rule deferredDec_total[OF Suc.IH[OF step[OF ne, of "DecArray l el"], of el]
                sub[of "DecArray l el"]])
      next
        case (TSlice el)
        then have ne: "typeOf env rt \<noteq> TInvalid" by simp
        have eq: "buildDecEngine (Suc n) env ios rt c =
                  deferredDec (DecSlice el) (buildDecEngine n env ios el (c(rt \<mapsto> DecSlice el)))"
          using miss noser TSlice by simp
        show ?thesis unfolding eq
          by (rule deferredDec_total[OF Suc.IH[OF step[OF ne, of "DecSlice el"], of el]
                sub[of "DecSlice el"]])
      next
        case (TMap k v)
        then have ne: "typeOf env rt \<noteq> TInvalid" by simp
        from Suc.IH[OF step[OF ne, of "DecMap k v"], of v] obtain c1 e1 p1 where
          b1: "buildDecEngine n env ios v (c(rt \<mapsto> DecMap k v)) = Some (c1, e1, p1)"
          and d1: "c(rt \<mapsto> DecMap k v) \<subseteq>\<^sub>m c1" by blast
        have "card ({t. t < length env} - dom c1) < n"
          using uncached_mono[OF map_le_implies_dom_le[OF d1], of env] step[OF ne, of "DecMap k v"]
          by simp
        from Suc.IH[OF this, of k] obtain c2 e2 p2 where
          b2: "buildDecEngine n env ios k c1 = Some (c2, e2, p2)" and d2: "c1 \<subseteq>\<^sub>m c2"
          by blast
        have "c \<subseteq>\<^sub>m c2" by (rule map_le_trans[OF map_le_trans[OF sub d1] d2])
        then show ?thesis using miss noser TMap b1 b2 by (simp del: fun_upd_apply)
      next
        case (TStruct sfields)
        then have ne: "typeOf env rt \<noteq> TInvalid" by simp
        obtain flds offs where g: "getFieldType ios sfields 0 = (flds, offs)"
          by (cases "getFieldType ios sfields 0")
        from buildDecFields_total_aux[of env n ios "c(rt \<mapsto> DecStruct flds offs)" flds,
            OF Suc.IH step[OF ne, of "DecStruct flds offs"]]
        obtain c1 p where
          b: "buildDecFields n env ios flds (c(rt \<mapsto> DecStruct flds offs)) = Some (c1, p)"
          and d: "c(rt \<mapsto> DecStruct flds offs) \<subseteq>\<^sub>m c1" by blast
        have "c \<subseteq>\<^sub>m c1" by (rule map_le_trans[OF sub d])
        then show ?thesis using miss noser TStruct g b by (simp del: fun_upd_apply)
      next
        case (TInterface nm)
        then show ?thesis using miss noser sub by (simp del: fun_upd_apply)
      next
        case (TBasic kind)
        then show ?thesis using miss noser sub by (simp del: fun_upd_apply)
      qed (use miss noser in auto)
    qed
  qed
qed

lemma buildDecEngine_total:
  "\<exists>c1 e p. buildDecEngine (Suc (length env + k)) env ios rt c = Some (c1, e, p) \<and> c \<subseteq>\<^sub>m c1"
  by (rule buildDecEngine_total_aux) (use uncached_le[of env c] in simp)

lemma buildDecEngine_hit:
  "c rt = Some engine \<Longrightarrow> buildDecEngine (Suc k) env ios rt c = Some (c, Some engine, None)"
  by simp

lemma buildDecEngine_node:
  assumes "typeOf env rt = TStruct [StructField None voff vt None, StructField None poff pt None]"
    and "typeOf env vt = TBasic kind" and "typeOf env pt = TPtr rt"
    and "c rt = None" "c vt = None" "c pt = None"
    and "ios rt = None" "ios vt = None" "ios pt = None"
  shows "buildDecEngine (Suc (Suc (Suc k))) env ios rt c =
           Some (c(rt \<mapsto> DecStruct [vt, pt] [voff, poff], vt \<mapsto> decEngines kind, pt \<mapsto> DecPtr rt),
                 Some (DecStruct [vt, pt] [voff, poff]), None)"
proof -
  have ne: "rt \<noteq> vt" "rt \<noteq> pt" "vt \<noteq> pt" using assms(1-3) by auto
  show ?thesis
    using assms ne by (simp add: ignoreField_def deferredDec_def)
qed

lemma buildEncFields_total_aux:
  assumes IH: "\<And>rt c. card ({t. t < length env} - dom c) < n \<Longrightarrow>
            \<exists>c1 e p. buildEncEngine n env ios rt c = Some (c1, e, p) \<and> c \<subseteq>\<^sub>m c1"
  shows "card ({t. t < length env} - dom c) < n \<Longrightarrow>
         \<exists>c1 p. buildEncFields n env ios fs c = Some (c1, p) \<and> c \<subseteq>\<^sub>m c1"
proof (induction fs arbitrary: c)
  case Nil
  then show ?case by simp
next
  case (Cons f fs)
  from IH[OF Cons.prems, of f] obtain c1 e p where
    b: "buildEncEngine n env ios f c = Some (c1, e, p)" and d: "c \<subseteq>\<^sub>m c1" by blast
  show ?case
  proof (cases p)
    case None
    have "card ({t. t < length env} - dom c1) < n"
      using uncached_mono[OF map_le_implies_dom_le[OF d], of env] Cons.prems by simp
    from Cons.IH[OF this] obtain c2 p2 where
      b2: "buildEncFields n env ios fs c1 = Some (c2, p2)" and d2: "c1 \<subseteq>\<^sub>m c2" by blast
    have "c \<subseteq>\<^sub>m c2" by (rule map_le_trans[OF d d2])
    then show ?thesis using b b2 None by auto
  next
    case (Some a)
    then show ?thesis using b d by simp
  qed
qed

lemma deferredEnc_total:
  assumes "\<exists>c1 e p. r = Some (c1, e, p) \<and> c0 \<subseteq>\<^sub>m c1" "c \<subseteq>\<^sub>m c0"
  shows "\<exists>c1 e p. deferredEnc engine r = Some (c1, e, p) \<and> c \<subseteq>\<^sub>m c1"
proof -
  from assms(1) obtain c1 e p where r: "r = Some (c1, e, p)" and d: "c0 \<subseteq>\<^sub>m c1" by blast
  have "c \<subseteq>\<^sub>m c1" by (rule map_le_trans[OF assms(2) d])
  then show ?thesis using r by (simp add: deferredEnc_def)
qed

lemma buildEncEngine_total_aux:
  "card ({t. t < length env} - dom c) < n \<Longrightarrow>
   \<exists>c1 e p. buildEncEngine n env ios rt c = Some (c1, e, p) \<and> c \<subseteq>\<^sub>m c1"
proof (induction n arbitrary: rt c)
  case 0
  then show ?case by simp
next
  case (Suc n)
  show ?case
  proof (cases "c rt")
    case (Some e)
    then show ?thesis by simp
  next
    case miss: None
    have sub: "c \<subseteq>\<^sub>m c(rt \<mapsto> e)" for e
      using miss by (auto simp: map_le_def)
    show ?thesis
    proof (cases "ios rt")
      case (Some e)
      then show ?thesis using miss sub by (cases e) (simp del: fun_upd_apply)
    next
      case noser: None
      have step: "card ({t. t < length env} - dom (c(rt \<mapsto> e))) < n" if "typeOf env rt \<noteq> TInvalid" for e
        using uncached_update[of rt env c e, OF typeOf_valid[OF that] miss] Suc.prems by simp
      show ?thesis
      proof (cases "typeOf env rt")
        case (TPtr el)
        then have ne: "typeOf env rt \<noteq> TInvalid" by simp
        have eq: "buildEncEngine (Suc n) env ios rt c =
                  deferredEnc (EncPtr el) (buildEncEngine n env ios el (c(rt \<mapsto> EncPtr el)))"
          using miss noser TPtr by simp
        show ?thesis unfolding eq
          by (rule deferredEnc_total[OF Suc.IH[OF step[OF ne, of "EncPtr el"], of el] sub[of "EncPtr el"]])
      next
        case (TArray l el)
        then have ne: "typeOf env rt \<noteq> TInvalid" by simp
        have eq: "buildEncEngine (Suc n) env ios rt c =
                  deferredEnc (EncArray l el) (buildEncEngine n env ios el (c(rt \<mapsto> EncArray l el)))"
          using miss noser TArray by simp
        show ?thesis unfolding eq
          by (rule deferredEnc_total[OF Suc.IH[OF step[OF ne, of "EncArray l el"], of el]
                sub[of "EncArray l el"]])
      next
        case (TSlice el)
        then have ne: "typeOf env rt \<noteq> TInvalid" by simp
        have eq: "buildEncEngine (Suc n) env ios rt c =
                  deferredEnc (EncSlice el) (buildEncEngine n env ios el (c(rt \<mapsto> EncSlice el)))"
          using miss noser TSlice by simp
        show ?thesis unfolding eq
          by (rule deferredEnc_total[OF Suc.IH[OF step[OF ne, of "EncSlice el"], of el]
                sub[of "EncSlice el"]])
      next
        case (TMap k v)
        then have ne: "typeOf env rt \<noteq> TInvalid" by simp
        from Suc.IH[OF step[OF ne, of "EncMap k v"], of v] obtain c1 e1 p1 where
          b1: "buildEncEngine n env ios v (c(rt \<mapsto> EncMap k v)) = Some (c1, e1, p1)"
          and d1: "c(rt \<mapsto> EncMap k v) \<subseteq>\<^sub>m c1" by blast
        have "card ({t. t < length env} - dom c1) < n"
          using uncached_mono[OF map_le_implies_dom_le[OF d1], of env] step[OF ne, of "EncMap k v"]
          by simp
        from Suc.IH[OF this, of k] obtain c2 e2 p2 where
          b2: "buildEncEngine n env ios k c1 = Some (c2, e2, p2)" and d2: "c1 \<subseteq>\<^sub>m c2"
          by blast
        have "c \<subseteq>\<^sub>m c2" by (rule map_le_trans[OF map_le_trans[OF sub d1] d2])
        then show ?thesis using miss noser TMap b1 b2 by (simp del: fun_upd_apply)
      next
        case (TStruct sfields)
        then have ne: "typeOf env rt \<noteq> TInvalid" by simp
        obtain flds offs where g: "getFieldType ios sfields 0 = (flds, offs)"
          by (cases "getFieldType ios sfields 0")
        from buildEncFields_total_aux[of env n ios "c(rt \<mapsto> EncStruct flds offs)" flds,
            OF Suc.IH step[OF ne, of "EncStruct flds offs"]]
        obtain c1 p where
          b: "buildEncFields n env ios flds (c(rt \<mapsto> EncStruct flds offs)) = Some (c1, p)"
          and d: "c(rt \<mapsto> EncStruct flds offs) \<subseteq>\<^sub>m c1" by blast
        have "c \<subseteq>\<^sub>m c1" by (rule map_le_trans[OF sub d])
        then show ?thesis using miss noser TStruct g b by (simp del: fun_upd_apply)
      next
        case (TInterface nm)
        then show ?thesis using miss noser sub by (simp del: fun_upd_apply)
      next
        case (TBasic kind)
        then show ?thesis using miss noser sub by (simp del: fun_upd_apply)
      qed (use miss noser in auto)
    qed
  qed
qed

lemma buildEncEngine_total:
  "\<exists>c1 e p. buildEncEngine (Suc (length env + k)) env ios rt c = Some (c1, e, p) \<and> c \<subseteq>\<^sub>m c1"
  by (rule buildEncEngine_total_aux) (use uncached_le[of env c] in simp)

lemma buildEncEngine_hit:
  "c rt = Some engine \<Longrightarrow> buildEncEngine (Suc k) env ios rt c = Some (c, Some engine, None)"
  by simp

lemma buildEncEngine_node:
  assumes "typeOf env rt = TStruct [StructField None voff vt None, StructField None poff pt None]"
    and "typeOf env vt = TBasic kind" and "typeOf env pt = TPtr rt"
    and "c rt = None" "c vt = None" "c pt = None"
    and "ios rt = None" "ios vt = None" "ios pt = None"
  shows "buildEncEngine (Suc (Suc (Suc k))) env ios rt c =
           Some (c(rt \<mapsto> EncStruct [vt, pt] [voff, poff], vt \<mapsto> encEngines kind, pt \<mapsto> EncPtr rt),
                 Some (EncStruct [vt, pt] [voff, poff]), None)"
proof -
  have ne: "rt \<noteq> vt" "rt \<noteq> pt" "vt \<noteq> pt" using assms(1-3) by auto
  show ?thesis
    using assms ne by (simp add: ignoreField_def deferredEnc_def)
qed

lemma getDecEngine_total:
  "\<exists>c1 e p. getDecEngine (Suc (length env + k)) env ios rt c = Some (c1, e, p) \<and> c \<subseteq>\<^sub>m c1"
  using buildDecEngine_total[of env k ios rt c]
  by (cases "c rt") (simp_all add: getDecEngine_def)

lemma getEncEngine_total:
  "\<exists>c1 e p. getEncEngine (Suc (length env + k)) env ios rt c = Some (c1, e, p) \<and> c \<subseteq>\<^sub>m c1"
  using buildEncEngine_total[of env k ios rt c]
  by (cases "c rt") (simp_all add: getEncEngine_def)

text \<open>
  Claim C5. Building the engine of a type terminates, whatever the type graph and the
  cache: on a graph of \<open>length env\<close> types a depth of recursion of \<open>length env + 1\<close> is
  enough for \<open>buildDecEngine\<close>, \<open>buildEncEngine\<close>, \<open>getDecEngine\<close> and
  \<open>getEncEngine\<close> to return, and no entry of the cache is changed. A type that has an
  engine in the cache is bound to that engine and not compiled again. For a struct type
  with a field of a basic type and a field that is a pointer to the struct type itself,
  the entry of the struct type is written before its fields are built, the build of the
  pointer type finds it, and the build ends after recursion of depth 3 with the engines
  of the three types and no panic.
\<close>

theorem engine_build_terminates:
  "(\<exists>c1 e p. buildDecEngine (Suc (length env + k)) env ios rt c = Some (c1, e, p) \<and> c \<subseteq>\<^sub>m c1) \<and>
   (\<exists>c1 e p. buildEncEngine (Suc (length env + k)) env ios rt ce = Some (c1, e, p) \<and> ce \<subseteq>\<^sub>m c1) \<and>
   (\<exists>c1 e p. getDecEngine (Suc (length env + k)) env ios rt c = Some (c1, e, p) \<and> c \<subseteq>\<^sub>m c1) \<and>
   (\<exists>c1 e p. getEncEngine (Suc (length env + k)) env ios rt ce = Some (c1, e, p) \<and> ce \<subseteq>\<^sub>m c1) \<and>
   (ch rh = Some dengine \<longrightarrow>
      buildDecEngine (Suc k) env ios rh ch = Some (ch, Some dengine, None)) \<and>
   (ceh rh = Some eengine \<longrightarrow>
      buildEncEngine (Suc k) env ios rh ceh = Some (ceh, Some eengine, None)) \<and>
   (typeOf env nt = TStruct [StructField None voff vt None, StructField None poff pt None] \<and>
    typeOf env vt = TBasic kind \<and> typeOf env pt = TPtr nt \<and>
    cn nt = None \<and> cn vt = None \<and> cn pt = None \<and>
    cen nt = None \<and> cen vt = None \<and> cen pt = None \<and>
    ios nt = None \<and> ios vt = None \<and> ios pt = None \<longrightarrow>
      buildDecEngine (Suc (Suc (Suc k))) env ios nt cn =
        Some (cn(nt \<mapsto> DecStruct [vt, pt] [voff, poff], vt \<mapsto> decEngines kind, pt \<mapsto> DecPtr nt),
              Some (DecStruct [vt, pt] [voff, poff]), None) \<and>
      buildEncEngine (Suc (Suc (Suc k))) env ios nt cen =
        Some (cen(nt \<mapsto> EncStruct [vt, pt] [voff, poff], vt \<mapsto> encEngines kind, pt \<mapsto> EncPtr nt),
              Some (EncStruct [vt, pt] [voff, poff]), None))"
proof (intro conjI, goal_cases)
  case 1
  show ?case by (rule buildDecEngine_total)
next
  case 2
  show ?case by (rule buildEncEngine_total)
next
  case 3
  show ?case by (rule getDecEngine_total)
next
  case 4
  show ?case by (rule getEncEngine_total)
next
  case 5
  show ?case by (rule impI) (rule buildDecEngine_hit)
next
  case 6
  show ?case by (rule impI) (rule buildEncEngine_hit)
next
  case 7
  show ?case
    by (rule impI, elim conjE, intro conjI;
        (rule buildDecEngine_node | rule buildEncEngine_node); assumption)
qed

theorem engine_build_terminates_witness:
  "typeOf [TStruct [StructField None 0 1 None, StructField None 8 2 None], TBasic KInt, TPtr 0] 0
     = TStruct [StructField None 0 1 None, StructField None 8 2 None] \<and>
   typeOf [TStruct [StructField None 0 1 None, StructField None 8 2 None], TBasic KInt, TPtr 0] 2
     = TPtr 0 \<and>
   buildDecEngine (Suc (Suc (Suc 0)))
       [TStruct [StructField None 0 1 None, StructField None 8 2 None], TBasic KInt, TPtr 0]
       (\<lambda>t. None) 0 Map.empty
     = Some ([0 \<mapsto> DecStruct [1, 2] [0, 8], 1 \<mapsto> DecInt, 2 \<mapsto> DecPtr 0],
             Some (DecStruct [1, 2] [0, 8]), None) \<and>
   buildEncEngine (Suc (Suc (Suc 0)))
       [TStruct [StructField None 0 1 None, StructField None 8 2 None], TBasic KInt, TPtr 0]
       (\<lambda>t. None) 0 Map.empty
     = Some ([0 \<mapsto> EncStruct [1, 2] [0, 8], 1 \<mapsto> EncInt, 2 \<mapsto> EncPtr 0],
             Some (EncStruct [1, 2] [0, 8]), None) \<and>
   buildDecEngine (Suc 0)
       [TStruct [StructField None 0 1 None, StructField None 8 2 None], TBasic KInt, TPtr 0]
       (\<lambda>t. None) 0 [0 \<mapsto> DecStruct [1, 2] [0, 8]]
     = Some ([0 \<mapsto> DecStruct [1, 2] [0, 8]], Some (DecStruct [1, 2] [0, 8]), None)"
  using engine_build_terminates[where
      env = "[TStruct [StructField None 0 1 None, StructField None 8 2 None], TBasic KInt, TPtr 0]"
      and k = 0 and ios = "\<lambda>t. None" and rt = 0 and c = Map.empty and ce = Map.empty
      and ch = "[0 \<mapsto> DecStruct [1, 2] [0, 8]]" and rh = 0 and dengine = "DecStruct [1, 2] [0, 8]"
      and ceh = "[0 \<mapsto> EncStruct [1, 2] [0, 8]]" and eengine = "EncStruct [1, 2] [0, 8]"
      and nt = 0 and vt = 1 and pt = 2 and voff = 0 and poff = 8 and kind = KInt
      and cn = Map.empty and cen = Map.empty]
  by (simp add: typeOf_def)


section \<open>Packed booleans\<close>

lemma and_pow2_bit:
  fixes b :: byte
  shows "(b AND 2 ^ k \<noteq> 0) = bit b k"
  by (simp add: and_exp_eq_0_iff_not_bit)

lemma and_numeral_bit:
  fixes b :: byte
  shows "(b AND 1 \<noteq> 0) = bit b 0" "(b AND 2 \<noteq> 0) = bit b 1" "(b AND 4 \<noteq> 0) = bit b 2"
    "(b AND 8 \<noteq> 0) = bit b 3" "(b AND 16 \<noteq> 0) = bit b 4" "(b AND 32 \<noteq> 0) = bit b 5"
    "(b AND 64 \<noteq> 0) = bit b 6" "(b AND 128 \<noteq> 0) = bit b 7"
  using and_pow2_bit[of b 0] and_pow2_bit[of b 1] and_pow2_bit[of b 2] and_pow2_bit[of b 3]
    and_pow2_bit[of b 4] and_pow2_bit[of b 5] and_pow2_bit[of b 6] and_pow2_bit[of b 7]
  by simp_all

lemma decBool_fresh:
  "boolBit d = 0 \<Longrightarrow> bufAt d (index d) = Inr b \<Longrightarrow>
   decBool d = Inr (bit b 0, d\<lparr>boolBit := 2, boolPos := b, index := index d + 1\<rparr>)"
  by (simp add: decBool_def bindE_def and_numeral_bit)

lemma decBool_next:
  "boolBit d = 2 ^ k \<Longrightarrow> k < 8 \<Longrightarrow>
   decBool d = Inr (bit (boolPos d) k, d\<lparr>boolBit := 2 ^ (k + 1)\<rparr>)"
  by (simp add: decBool_def bindE_def and_pow2_bit push_bit_eq_mult)

lemma upt_0_9: "[0..<9] = [0, 1, 2, 3, 4, 5, 6, 7, 8 :: nat]"
  by code_simp

lemma decode_nine_bools:
  assumes "boolBit d = 0" "index d = 0" "2 \<le> n"
  shows "decode [decArrayEng (decBoolEng store) 9 1] (b0 # b1 # rest) n [p] d h =
     Inr (2, d\<lparr>bufmem := b0 # b1 # rest, buflen := n, index := 0, boolPos := 0, boolBit := 0\<rparr>,
          store (p + 8) (bit b1 0) (store (p + 7) (bit b0 7) (store (p + 6) (bit b0 6)
          (store (p + 5) (bit b0 5) (store (p + 4) (bit b0 4) (store (p + 3) (bit b0 3)
          (store (p + 2) (bit b0 2) (store (p + 1) (bit b0 1) (store p (bit b0 0) h)))))))))"
  using assms
  by (simp add: decode_def decArrayEng_def decBoolEng_def decBool_def bindE_def bufAt_def
        reset_def and_numeral_bit upt_0_9)

lemma decode_bool_byte_bool:
  assumes "boolBit d = 0" "index d = 0" "2 \<le> n"
  shows "decode [decBoolEng store, decUint8Eng store8, decBoolEng store] (b0 # x # rest) n
           [p, q, r] d h =
     Inr (2, d\<lparr>bufmem := b0 # x # rest, buflen := n, index := 0, boolPos := 0, boolBit := 0\<rparr>,
          store r (bit b0 1) (store8 q x (store p (bit b0 0) h)))"
  using assms
  by (simp add: decode_def decBoolEng_def decUint8Eng_def decBool_def bindE_def bufAt_def
        reset_def and_numeral_bit)

lemma decode_resets:
  "decode engines buf n is d h = Inr (m, d1, h1) \<Longrightarrow>
   index d1 = 0 \<and> boolPos d1 = 0 \<and> boolBit d1 = 0"
  by (auto simp: decode_def bindE_def reset_def split: sum.splits)

lemma decode_bool_twice:
  assumes "boolBit d = 0" "index d = 0" "1 \<le> na" "1 \<le> nb"
  shows "bindE (decode [decBoolEng store] (a # ra) na [p] d h)
           (\<lambda>(n, d1, h1). decode [decBoolEng store] (b # rb) nb [q] d1 h1) =
     Inr (1, d\<lparr>bufmem := b # rb, buflen := nb, index := 0, boolPos := 0, boolBit := 0\<rparr>,
          store q (bit b 0) (store p (bit a 0) h))"
  using assms
  by (simp add: decode_def decBoolEng_def decBool_def bindE_def bufAt_def reset_def
        and_numeral_bit)

lemma decBoolInPlace_drop: "dropState (decBoolInPlace d) = decBool d"
  by (simp add: dropState_def decBoolInPlace_def decBool_def bindE_def Let_def bufAt_def)

lemma decBoolEngInPlace_drop:
  "dropState (decBoolEngInPlace store d h p) = decBoolEng store d h p"
  using decBoolInPlace_drop[of d]
  by (auto simp: dropState_def decBoolEngInPlace_def decBoolEng_def bindE_def
        split: sum.splits)

lemma decUint8EngInPlace_drop:
  "dropState (decUint8EngInPlace store d h p) = decUint8Eng store d h p"
  by (simp add: dropState_def decUint8EngInPlace_def decUint8Eng_def bindE_def
        split: sum.splits)

lemma runEnginesInPlace_drop:
  "dropState (runEnginesInPlace engines is d h) =
   runEngines (map (\<lambda>eng da ha pa. dropState (eng da ha pa)) engines) is d h"
proof (induction engines "is" d h rule: runEnginesInPlace.induct)
  case (1 eng engines p "is" d h)
  show ?case
  proof (cases "eng d h p")
    case (Inl x)
    then show ?thesis by (cases x) (simp add: dropState_def)
  next
    case (Inr y)
    then show ?thesis using 1 by (cases y) (simp add: dropState_def)
  qed
qed (simp_all add: dropState_def)

lemma decodeInPlace_drop:
  "dropState (decodeInPlace engines buf n is d h) =
   decode (map (\<lambda>eng da ha pa. dropState (eng da ha pa)) engines) buf n is d h"
proof -
  let ?d = "d\<lparr>bufmem := buf, buflen := n\<rparr>"
  have r: "runEngines (map (\<lambda>eng da ha pa. dropState (eng da ha pa)) engines) is ?d h =
           dropState (runEnginesInPlace engines is ?d h)"
    by (rule runEnginesInPlace_drop[symmetric])
  show ?thesis
    unfolding decode_def r
    by (cases "runEnginesInPlace engines is ?d h")
       (auto simp: decodeInPlace_def bindE_def dropState_def reset_def)
qed

lemma decBoolInPlace_panic:
  "boolBit d = 0 \<Longrightarrow> bufAt d (index d) = Inl e \<Longrightarrow>
   decBoolInPlace d = Inl (e, d\<lparr>boolBit := 1\<rparr>)"
  by (simp add: decBoolInPlace_def bufAt_def Let_def split: if_splits)

lemma decodeInPlace_panic:
  "decodeInPlace engines buf n is d h = Inl (e, d1, h1) \<Longrightarrow>
   runEnginesInPlace engines is (d\<lparr>bufmem := buf, buflen := n\<rparr>) h = Inl (e, d1, h1)"
  by (auto simp: decodeInPlace_def reset_def split: sum.splits)

text \<open>
  Claim C3, as amended. A boolean is one bit of a control byte, the least significant
  bit first, eight to a byte: with no group open (\<open>boolBit = 0\<close>) \<open>decBool\<close> reads the
  byte at the index as a new control byte and returns its bit 0; with bit \<open>k\<close> next it
  returns bit \<open>k\<close> of the control byte and reads nothing, and after bit 7 the group is
  closed. The group belongs to the whole call: a boolean, a byte and a boolean decoded
  by three engines take the two booleans from bits 0 and 1 of one control byte. Nine
  booleans take two control bytes, the ninth being bit 0 of the second. The index,
  the control byte and the bit cursor are set to zero at the end of every \<open>decode\<close>
  that returns, and they are zero in a new Decoder, so a call that follows a call that
  returned opens a group of its own: its first boolean is bit 0 of its own first byte.
  A \<open>decode\<close> that panics does not reset them: the Decoder stays as the engine that
  panicked left it, with the bit cursor at 1 when \<open>decBool\<close> found no byte for a new
  control byte.
\<close>

theorem bool_packing:
  "(boolBit da = 0 \<and> bufAt da (index da) = Inr ba \<longrightarrow>
      decBool da = Inr (bit ba 0, da\<lparr>boolBit := 2, boolPos := ba, index := index da + 1\<rparr>)) \<and>
   (boolBit db = 2 ^ k \<and> k < 8 \<longrightarrow>
      decBool db = Inr (bit (boolPos db) k, db\<lparr>boolBit := 2 ^ (k + 1)\<rparr>)) \<and>
   (boolBit d = 0 \<and> index d = 0 \<and> 2 \<le> bl \<and> 1 \<le> na \<and> 1 \<le> nb \<longrightarrow>
      decode [decArrayEng (decBoolEng store) 9 1] (ca # cb # rest) bl [p] d h =
        Inr (2, d\<lparr>bufmem := ca # cb # rest, buflen := bl,
                  index := 0, boolPos := 0, boolBit := 0\<rparr>,
             store (p + 8) (bit cb 0) (store (p + 7) (bit ca 7) (store (p + 6) (bit ca 6)
             (store (p + 5) (bit ca 5) (store (p + 4) (bit ca 4) (store (p + 3) (bit ca 3)
             (store (p + 2) (bit ca 2) (store (p + 1) (bit ca 1) (store p (bit ca 0) h))))))))) \<and>
      decode [decBoolEng store, decUint8Eng storeByte, decBoolEng store] (ca # cb # rest) bl
          [p, q, r] d h =
        Inr (2, d\<lparr>bufmem := ca # cb # rest, buflen := bl,
                  index := 0, boolPos := 0, boolBit := 0\<rparr>,
             store r (bit ca 1) (storeByte q cb (store p (bit ca 0) h))) \<and>
      bindE (decode [decBoolEng store] (ca # rest) na [p] d h)
          (\<lambda>(n, d1, h1). decode [decBoolEng store] (cb # rest) nb [q] d1 h1) =
        Inr (1, d\<lparr>bufmem := cb # rest, buflen := nb,
                  index := 0, boolPos := 0, boolBit := 0\<rparr>,
             store q (bit cb 0) (store p (bit ca 0) h))) \<and>
   (decode engines buf bn dests dc hc = Inr (n, dd, he) \<longrightarrow>
      index dd = 0 \<and> boolPos dd = 0 \<and> boolBit dd = 0) \<and>
   index (newDecoder buf) = 0 \<and> boolPos (newDecoder buf) = 0 \<and> boolBit (newDecoder buf) = 0 \<and>
   dropState (decBoolInPlace df) = decBool df \<and>
   dropState (decBoolEngInPlace store df hf pf) = decBoolEng store df hf pf \<and>
   dropState (decUint8EngInPlace storeByte df hf pf) = decUint8Eng storeByte df hf pf \<and>
   dropState (decodeInPlace enginesInPlace buf bn dests dc hc) =
     decode (map (\<lambda>eng dx hx px. dropState (eng dx hx px)) enginesInPlace) buf bn dests dc hc \<and>
   (boolBit dg = 0 \<and> bufAt dg (index dg) = Inl e \<longrightarrow>
      decBoolInPlace dg = Inl (e, dg\<lparr>boolBit := 1\<rparr>)) \<and>
   (decodeInPlace enginesInPlace buf bn dests dc hc = Inl (e, dp, hp) \<longrightarrow>
      runEnginesInPlace enginesInPlace dests (dc\<lparr>bufmem := buf, buflen := bn\<rparr>) hc
        = Inl (e, dp, hp))"
proof (intro conjI, goal_cases)
  case 1
  show ?case by (rule impI, elim conjE) (rule decBool_fresh)
next
  case 2
  show ?case by (rule impI, elim conjE) (rule decBool_next)
next
  case 3
  show ?case
    by (rule impI, elim conjE, intro conjI)
       (simp_all only: decode_nine_bools decode_bool_byte_bool decode_bool_twice)
next
  case 4
  show ?case by (rule impI) (rule decode_resets)
next
  case 8
  show ?case by (rule decBoolInPlace_drop)
next
  case 9
  show ?case by (rule decBoolEngInPlace_drop)
next
  case 10
  show ?case by (rule decUint8EngInPlace_drop)
next
  case 11
  show ?case by (rule decodeInPlace_drop)
next
  case 12
  show ?case by (rule impI, elim conjE) (rule decBoolInPlace_panic)
next
  case 13
  show ?case by (rule impI) (rule decodeInPlace_panic)
qed (simp_all add: newDecoder_def)

theorem bool_packing_witness:
  "decBool (newDecoder [0x55, 0x01])
     = Inr (True, (newDecoder [0x55, 0x01])\<lparr>boolBit := 2, boolPos := 0x55, index := 1\<rparr>) \<and>
   decBool ((newDecoder [0x55, 0x01])\<lparr>boolBit := 2, boolPos := 0x55, index := 1\<rparr>)
     = Inr (False, (newDecoder [0x55, 0x01])\<lparr>boolBit := 4, boolPos := 0x55, index := 1\<rparr>) \<and>
   decode [decArrayEng (decBoolEng (\<lambda>a v log. log @ [(a, v)])) 9 1] [0x55, 0x01] 2 [100]
       (newDecoder []) []
     = Inr (2, newDecoder [0x55, 0x01],
            [(100, True), (101, False), (102, True), (103, False), (104, True), (105, False),
             (106, True), (107, False), (108, True)]) \<and>
   index (newDecoder [0x55, 0x01]) = 0 \<and>
   decBoolInPlace (newDecoder []) = Inl (IndexOutOfRange, (newDecoder [])\<lparr>boolBit := 1\<rparr>) \<and>
   runEnginesInPlace [decBoolEngInPlace (\<lambda>a v log. log @ [(a, v)])] [100]
       ((newDecoder [])\<lparr>bufmem := [], buflen := 0\<rparr>) []
     = Inl (IndexOutOfRange, (newDecoder [])\<lparr>boolBit := 1\<rparr>, [])"
  using bool_packing[where da = "newDecoder [0x55, 0x01]" and ba = "0x55"
      and db = "(newDecoder [0x55, 0x01])\<lparr>boolBit := 2, boolPos := 0x55, index := 1\<rparr>"
      and k = 1 and d = "newDecoder []" and ca = "0x55" and cb = "0x01" and rest = "[]"
      and bl = 2 and na = 1 and nb = 1
      and store = "\<lambda>a v log. log @ [(a, v)]" and p = 100 and h = "[]"
      and storeByte = "\<lambda>a v log. log" and q = 200 and r = 300
      and engines = "[decArrayEng (decBoolEng (\<lambda>a v log. log @ [(a, v)])) 9 1]"
      and buf = "[0x55, 0x01]" and bn = 2 and dests = "[100]" and dc = "newDecoder []"
      and hc = "[]" and n = 2 and dd = "newDecoder [0x55, 0x01]"
      and he = "[(100, True), (101, False), (102, True), (103, False), (104, True),
                 (105, False), (106, True), (107, False), (108, True)]"
      and dg = "newDecoder []" and e = IndexOutOfRange]
    bool_packing[where dg = "newDecoder []" and e = IndexOutOfRange
      and enginesInPlace = "[decBoolEngInPlace (\<lambda>a v log. log @ [(a, v)])]"
      and buf = "[]" and bn = 0 and dests = "[100]" and dc = "newDecoder []" and hc = "[]"
      and dp = "(newDecoder [])\<lparr>boolBit := 1\<rparr>" and hp = "[]"]
  by (simp add: newDecoder_def bufAt_def bit_numeral_simps decodeInPlace_def
        decBoolEngInPlace_def decBoolInPlace_def Let_def)

text \<open>
  Claim C3 as the specification states it has the control byte and the bit cursor reset
  at every top-level call, so that no group leaks from one call into the next. The
  reset is the last statement of \<open>decode\<close>. Here a call for a boolean and a byte on the
  one byte 03 panics on the missing byte and leaves the cursor at bit 1 of the control
  byte 03; the next call on the same Decoder, for a boolean on the one byte 00, reads
  no byte, takes bit 1 of the old control byte, which is true, and returns 1, the old
  index. On a new Decoder the same call gives bit 0 of the byte 00, which is false.
\<close>

theorem bool_group_after_panic_counterexample:
  "decodeInPlace [decBoolEngInPlace (\<lambda>a v log. log @ [(a, v)]),
                  decUint8EngInPlace (\<lambda>a v log. log)] [0x03] 1 [100, 200] (newDecoder []) []
     = Inl (IndexOutOfRange,
            \<lparr>bufmem = [0x03], buflen = 1, index = 1, boolPos = 0x03, boolBit = 2\<rparr>,
            [(100, True)]) \<and>
   decodeInPlace [decBoolEngInPlace (\<lambda>a v log. log @ [(a, v)])] [0x00] 1 [300]
       \<lparr>bufmem = [0x03], buflen = 1, index = 1, boolPos = 0x03, boolBit = 2\<rparr> []
     = Inr (1, newDecoder [0x00], [(300, True)]) \<and>
   decodeInPlace [decBoolEngInPlace (\<lambda>a v log. log @ [(a, v)])] [0x00] 1 [300]
       (newDecoder []) []
     = Inr (1, newDecoder [0x00], [(300, False)]) \<and>
   \<not> bit (0x00 :: byte) 0"
  by (simp add: decodeInPlace_def decBoolEngInPlace_def decUint8EngInPlace_def
        decBoolInPlace_def newDecoder_def bufAt_def reset_def Let_def)


section \<open>Decoding a slice\<close>

lemma decSliceEng_reuse:
  assumes "decIsNotNil d = Inr (True, d1)" "decLength intSize d1 = Inr (l, d2)"
    and "\<not> isNilHeader header" "l \<le> cap header"
  shows "decSliceEng intSize makeSlice eng elemSize d h header =
     bindE (runElems eng (\<lambda>i. addrOf (data header) + i * elemSize) [0..<nat l] d2 h)
       (\<lambda>(d3, h2). Inr (header\<lparr>len := l\<rparr>, d3, h2))"
  using assms by (simp add: decSliceEng_def bindE_def)

lemma decSliceEng_alloc:
  assumes "decIsNotNil d = Inr (True, d1)" "decLength intSize d1 = Inr (l, d2)"
    and "isNilHeader header \<or> cap header < l" "0 \<le> l"
  shows "decSliceEng intSize makeSlice eng elemSize d h header =
     bindE (runElems eng (\<lambda>i. fst (makeSlice l h) + i * elemSize) [0..<nat l] d2
              (snd (makeSlice l h)))
       (\<lambda>(d3, h2). Inr (\<lparr>data = Some (fst (makeSlice l h)), len = l, cap = l\<rparr>, d3, h2))"
  using assms
  by (cases "makeSlice l h") (auto simp: decSliceEng_def bindE_def addrOf_def)

lemma decSliceEng_negative:
  assumes "decIsNotNil d = Inr (True, d1)" "decLength intSize d1 = Inr (l, d2)"
    and "isNilHeader header \<or> cap header < l" "l < 0"
  shows "decSliceEng intSize makeSlice eng elemSize d h header = Inl MakeSliceNegativeLen"
  using assms by (auto simp: decSliceEng_def bindE_def)

lemma decSliceEng_absent:
  assumes "decIsNotNil d = Inr (False, d1)"
  shows "decSliceEng intSize makeSlice eng elemSize d h header =
     Inr (if isNilHeader header then header else \<lparr>data = None, len = 0, cap = 0\<rparr>, d1, h)"
  using assms by (simp add: decSliceEng_def bindE_def)

text \<open>
  Claim C6, as amended. When the wire marks the slice present with \<open>l\<close> elements, the
  engine keeps the destination's backing array, setting only the length, exactly when
  the destination is not nil and its capacity is at least \<open>l\<close>; when the destination
  is nil or its capacity is below \<open>l\<close> it takes a new backing array of \<open>l\<close> elements
  (length and capacity \<open>l\<close>), also for \<open>l = 0\<close>, and panics if \<open>l\<close> is negative. In both
  cases the \<open>l\<close> elements are then decoded into the array. When the wire marks the
  slice absent, a destination that is not nil becomes the nil slice (no data, length
  and capacity 0) and a nil destination stays as it is.
\<close>

theorem slice_decode_storage:
  "(decIsNotNil d = Inr (True, da) \<and> decLength intSize da = Inr (l, db) \<and>
    \<not> isNilHeader header \<and> l \<le> cap header \<longrightarrow>
      decSliceEng intSize makeSlice eng elemSize d h header =
        bindE (runElems eng (\<lambda>i. addrOf (data header) + i * elemSize) [0..<nat l] db h)
          (\<lambda>(dc, hc). Inr (header\<lparr>len := l\<rparr>, dc, hc))) \<and>
   (decIsNotNil d = Inr (True, da) \<and> decLength intSize da = Inr (l, db) \<and>
    (isNilHeader small \<or> cap small < l) \<and> 0 \<le> l \<longrightarrow>
      decSliceEng intSize makeSlice eng elemSize d h small =
        bindE (runElems eng (\<lambda>i. fst (makeSlice l h) + i * elemSize) [0..<nat l] db
                 (snd (makeSlice l h)))
          (\<lambda>(dc, hc).
             Inr (\<lparr>data = Some (fst (makeSlice l h)), len = l, cap = l\<rparr>, dc, hc))) \<and>
   (decIsNotNil dn = Inr (True, dna) \<and> decLength intSizen dna = Inr (ln, dnb) \<and>
    (isNilHeader headern \<or> cap headern < ln) \<and> ln < 0 \<longrightarrow>
      decSliceEng intSizen makeSlice eng elemSize dn h headern = Inl MakeSliceNegativeLen) \<and>
   (decIsNotNil de = Inr (False, dea) \<longrightarrow>
      decSliceEng intSize makeSlice eng elemSize de h header =
        Inr (if isNilHeader header then header else \<lparr>data = None, len = 0, cap = 0\<rparr>,
             dea, h))"
proof (intro conjI, goal_cases)
  case 1
  show ?case by (rule impI, elim conjE) (rule decSliceEng_reuse)
next
  case 2
  show ?case by (rule impI, elim conjE) (rule decSliceEng_alloc)
next
  case 3
  show ?case by (rule impI, elim conjE) (rule decSliceEng_negative)
next
  case 4
  show ?case by (rule impI) (rule decSliceEng_absent)
qed

theorem slice_decode_storage_witness:
  "decSliceEng 64 (\<lambda>n m. (1000, m)) (decUint8Eng (\<lambda>a v m. m @ [(a, v)])) 1
       (newDecoder [0x01, 0x02, 0x0A, 0x0B]) [] \<lparr>data = Some 500, len = 1, cap = 4\<rparr>
     = Inr (\<lparr>data = Some 500, len = 2, cap = 4\<rparr>,
            (newDecoder [0x01, 0x02, 0x0A, 0x0B])\<lparr>boolBit := 2, boolPos := 1, index := 4\<rparr>,
            [(500, 0x0A), (501, 0x0B)]) \<and>
   decSliceEng 64 (\<lambda>n m. (1000, m)) (decUint8Eng (\<lambda>a v m. m @ [(a, v)])) 1
       (newDecoder [0x01, 0x02, 0x0A, 0x0B]) [] \<lparr>data = Some 500, len = 1, cap = 1\<rparr>
     = Inr (\<lparr>data = Some 1000, len = 2, cap = 2\<rparr>,
            (newDecoder [0x01, 0x02, 0x0A, 0x0B])\<lparr>boolBit := 2, boolPos := 1, index := 4\<rparr>,
            [(1000, 0x0A), (1001, 0x0B)]) \<and>
   decSliceEng 32 (\<lambda>n m. (1000, m)) (decUint8Eng (\<lambda>a v m. m @ [(a, v)])) 1
       (newDecoder [0x01, 0xFF, 0xFF, 0xFF, 0xFF, 0x0F]) [] \<lparr>data = None, len = 0, cap = 0\<rparr>
     = Inl MakeSliceNegativeLen \<and>
   decSliceEng 64 (\<lambda>n m. (1000, m)) (decUint8Eng (\<lambda>a v m. m @ [(a, v)])) 1
       (newDecoder [0x00]) [] \<lparr>data = Some 500, len = 1, cap = 4\<rparr>
     = Inr (\<lparr>data = None, len = 0, cap = 0\<rparr>,
            (newDecoder [0x00])\<lparr>boolBit := 2, boolPos := 0, index := 1\<rparr>, [])"
  using slice_decode_storage[where d = "newDecoder [0x01, 0x02, 0x0A, 0x0B]"
      and da = "(newDecoder [0x01, 0x02, 0x0A, 0x0B])\<lparr>boolBit := 2, boolPos := 1, index := 1\<rparr>"
      and intSize = 64 and l = 2
      and db = "(newDecoder [0x01, 0x02, 0x0A, 0x0B])\<lparr>boolBit := 2, boolPos := 1, index := 2\<rparr>"
      and header = "\<lparr>data = Some 500, len = 1, cap = 4\<rparr>"
      and small = "\<lparr>data = Some 500, len = 1, cap = 1\<rparr>"
      and makeSlice = "\<lambda>n m. (1000, m)" and eng = "decUint8Eng (\<lambda>a v m. m @ [(a, v)])"
      and elemSize = 1 and h = "[]"
      and dn = "newDecoder [0x01, 0xFF, 0xFF, 0xFF, 0xFF, 0x0F]"
      and dna = "(newDecoder [0x01, 0xFF, 0xFF, 0xFF, 0xFF, 0x0F])\<lparr>boolBit := 2, boolPos := 1, index := 1\<rparr>"
      and intSizen = 32 and ln = "- 1"
      and dnb = "(newDecoder [0x01, 0xFF, 0xFF, 0xFF, 0xFF, 0x0F])\<lparr>boolBit := 2, boolPos := 1, index := 6\<rparr>"
      and headern = "\<lparr>data = None, len = 0, cap = 0\<rparr>"
      and de = "newDecoder [0x00]"
      and dea = "(newDecoder [0x00])\<lparr>boolBit := 2, boolPos := 0, index := 1\<rparr>"]
  by (simp add: newDecoder_def decIsNotNil_def decBool_def decLength_def decUint32_def
        intOfUint32_def bufAt_def bindE_def Let_def isNilHeader_def addrOf_def decUint8Eng_def
        upt_rec)

text \<open>
  Claim C6 as the specification states it makes a destination whose capacity is at
  least the element count keep its backing storage, only its length being set. A nil
  destination has capacity 0; on a wire that marks the slice present with 0 elements
  it does not stay nil: the engine calls \<open>makeSlice\<close> and stores the new array.
\<close>

theorem slice_reuse_nil_counterexample:
  "cap \<lparr>data = None, len = 0, cap = 0\<rparr> \<ge> 0 \<and>
   decLength 64 ((newDecoder [0x01, 0x00])\<lparr>boolBit := 2, boolPos := 1, index := 1\<rparr>)
     = Inr (0, (newDecoder [0x01, 0x00])\<lparr>boolBit := 2, boolPos := 1, index := 2\<rparr>) \<and>
   decSliceEng 64 (\<lambda>n m. (1000, m)) (decUint8Eng (\<lambda>a v m. m @ [(a, v)])) 1
       (newDecoder [0x01, 0x00]) [] \<lparr>data = None, len = 0, cap = 0\<rparr>
     = Inr (\<lparr>data = Some 1000, len = 0, cap = 0\<rparr>,
            (newDecoder [0x01, 0x00])\<lparr>boolBit := 2, boolPos := 1, index := 2\<rparr>, []) \<and>
   \<lparr>data = Some 1000, len = 0, cap = 0\<rparr> \<noteq> \<lparr>data = None, len = 0, cap = 0\<rparr>\<lparr>len := 0\<rparr>"
  by (simp add: newDecoder_def decSliceEng_def decIsNotNil_def decBool_def decLength_def
        decUint32_def intOfUint32_def bufAt_def bindE_def Let_def isNilHeader_def addrOf_def)


section \<open>Decoding an interface value\<close>

lemma decInterfaceEng_unknown:
  assumes "decIsNotNil d = Inr (True, d1)" "decString intSize d1 = Inr (nm, d2)"
    and "names (stringOfBytes nm) = None"
  shows "decInterfaceEng intSize names assignable getEngine d h slot =
           Inl (Panic (''unknown typ:'' @ stringOfBytes nm))"
  using assms by (simp add: decInterfaceEng_def bindE_def Let_def)

lemma decInterfaceEng_known:
  assumes "decIsNotNil d = Inr (True, d1)" "decString intSize d1 = Inr (nm, d2)"
    and "names (stringOfBytes nm) = Some t"
  shows "decInterfaceEng intSize names assignable getEngine d h slot =
           bindE (getEngine t (slot \<noteq> Some t) d2 h)
             (\<lambda>(d3, h1). if slot \<noteq> Some t \<and> \<not> assignable t then Inl SetNotAssignable
                          else Inr (Some t, d3, h1))"
  using assms by (auto simp: decInterfaceEng_def bindE_def Let_def split: sum.splits)

lemma decInterfaceEng_absent:
  assumes "decIsNotNil d = Inr (False, d1)"
  shows "decInterfaceEng intSize names assignable getEngine d h slot = Inr (None, d1, h)"
  using assms by (auto simp: decInterfaceEng_def bindE_def)

lemma decInterfaceEng_returns:
  assumes "decIsNotNil d = Inr (True, d1)" "decString intSize d1 = Inr (nm, d2)"
    and "decInterfaceEng intSize names assignable getEngine d h slot = Inr (slot1, d3, h1)"
  shows "\<exists>t. names (stringOfBytes nm) = Some t \<and> slot1 = Some t \<and>
             getEngine t (slot \<noteq> Some t) d2 h = Inr (d3, h1) \<and>
             (slot \<noteq> Some t \<longrightarrow> assignable t)"
proof (cases "names (stringOfBytes nm)")
  case None
  from assms None show ?thesis by (simp add: decInterfaceEng_def bindE_def Let_def)
next
  case (Some t)
  from assms(1,2) Some have k:
    "decInterfaceEng intSize names assignable getEngine d h slot =
       bindE (getEngine t (slot \<noteq> Some t) d2 h)
         (\<lambda>(d3, h1). if slot \<noteq> Some t \<and> \<not> assignable t then Inl SetNotAssignable
                      else Inr (Some t, d3, h1))"
    by (auto simp: decInterfaceEng_def bindE_def Let_def split: sum.splits)
  have "slot1 = Some t \<and> getEngine t (slot \<noteq> Some t) d2 h = Inr (d3, h1) \<and>
        (slot \<noteq> Some t \<longrightarrow> assignable t)"
    using assms(3) unfolding k
    by (cases "getEngine t (slot \<noteq> Some t) d2 h")
       (auto simp: bindE_def split: if_splits)
  then show ?thesis using Some by (intro exI[of _ t]) simp
qed

text \<open>
  Claim C7. When the wire marks an interface value present, the engine reads the
  length-prefixed name and looks it up in the registry. A name with no entry is the
  panic \<open>unknown typ:\<close> followed by the name, whatever the engines are: none is called
  and nothing is returned. A name with an entry is decoded by the engine of the type
  registered under it, and of no other type, into a new value unless the slot already
  holds a value of that type; a new value is then stored in the slot, which is the
  panic of \<open>Set\<close> when the registered type is not assignable to the interface type of
  the slot. So whenever the engine returns on a present value, the name is registered,
  the engine that ran is the one of the registered type, and the slot holds that type.
\<close>

theorem interface_decode_lookup:
  "(decIsNotNil d = Inr (True, da) \<and> decString intSize da = Inr (nm, db) \<and>
    names (stringOfBytes nm) = None \<longrightarrow>
      decInterfaceEng intSize names assignable getEngine d h slot =
        Inl (Panic (''unknown typ:'' @ stringOfBytes nm))) \<and>
   (decIsNotNil d = Inr (True, da) \<and> decString intSize da = Inr (nm, db) \<and>
    known (stringOfBytes nm) = Some t \<longrightarrow>
      decInterfaceEng intSize known assignable getEngine d h slot =
        bindE (getEngine t (slot \<noteq> Some t) db h)
          (\<lambda>(dc, hc). if slot \<noteq> Some t \<and> \<not> assignable t then Inl SetNotAssignable
                       else Inr (Some t, dc, hc))) \<and>
   (decIsNotNil d = Inr (True, da) \<and> decString intSize da = Inr (nm, db) \<and>
    decInterfaceEng intSize known assignable getEngine d h slot = Inr (slotr, dr, hr) \<longrightarrow>
      (\<exists>t. known (stringOfBytes nm) = Some t \<and> slotr = Some t \<and>
           getEngine t (slot \<noteq> Some t) db h = Inr (dr, hr) \<and>
           (slot \<noteq> Some t \<longrightarrow> assignable t))) \<and>
   (decIsNotNil de = Inr (False, dea) \<longrightarrow>
      decInterfaceEng intSize names assignable getEngine de h slot = Inr (None, dea, h))"
proof (intro conjI, goal_cases)
  case 1
  show ?case by (rule impI, elim conjE) (rule decInterfaceEng_unknown)
next
  case 2
  show ?case by (rule impI, elim conjE) (rule decInterfaceEng_known)
next
  case 3
  show ?case by (rule impI, elim conjE) (rule decInterfaceEng_returns)
next
  case 4
  show ?case by (rule impI) (rule decInterfaceEng_absent)
qed

theorem interface_decode_lookup_witness:
  "decInterfaceEng 64 Map.empty (\<lambda>ty. True) (\<lambda>ty fresh dx m. Inr (dx, m @ [(ty, fresh)]))
       (newDecoder [0x01, 0x01, 0x54]) [] (None :: nat option)
     = Inl (Panic ''unknown typ:T'') \<and>
   decInterfaceEng 64 [''T'' \<mapsto> 7] (\<lambda>ty. True) (\<lambda>ty fresh dx m. Inr (dx, m @ [(ty, fresh)]))
       (newDecoder [0x01, 0x01, 0x54]) [] (None :: nat option)
     = Inr (Some 7, (newDecoder [0x01, 0x01, 0x54])\<lparr>boolBit := 2, boolPos := 1, index := 3\<rparr>,
            [(7, True)]) \<and>
   (\<exists>t. [''T'' \<mapsto> 7] ''T'' = Some t \<and> Some (7 :: nat) = Some t) \<and>
   decInterfaceEng 64 Map.empty (\<lambda>ty. True) (\<lambda>ty fresh dx m. Inr (dx, m @ [(ty, fresh)]))
       (newDecoder [0x00]) [] (None :: nat option)
     = Inr (None, (newDecoder [0x00])\<lparr>boolBit := 2, boolPos := 0, index := 1\<rparr>, [])"
  using interface_decode_lookup[where d = "newDecoder [0x01, 0x01, 0x54]"
      and da = "(newDecoder [0x01, 0x01, 0x54])\<lparr>boolBit := 2, boolPos := 1, index := 1\<rparr>"
      and intSize = 64 and nm = "[0x54]"
      and db = "(newDecoder [0x01, 0x01, 0x54])\<lparr>boolBit := 2, boolPos := 1, index := 3\<rparr>"
      and names = "Map.empty :: string \<rightharpoonup> nat" and known = "[''T'' \<mapsto> 7]" and t = 7
      and assignable = "\<lambda>ty. True"
      and getEngine = "\<lambda>ty fresh dx m. Inr (dx, m @ [(ty, fresh)])" and h = "[]"
      and slot = None and de = "newDecoder [0x00]"
      and dea = "(newDecoder [0x00])\<lparr>boolBit := 2, boolPos := 0, index := 1\<rparr>"
      and slotr = "Some 7"
      and dr = "(newDecoder [0x01, 0x01, 0x54])\<lparr>boolBit := 2, boolPos := 1, index := 3\<rparr>"
      and hr = "[(7, True)]"]
  by (simp add: newDecoder_def decIsNotNil_def decBool_def decString_def decUint32_def
        intOfUint32_def bufAt_def bufSlice_def bindE_def Let_def stringOfBytes_def char_of_def
        bit_0)


section \<open>Length prefixes\<close>

lemma intOfUint32_bound: "intOfUint32 intSize u < 2 ^ 32"
proof (cases "intSize = 32")
  case True
  have "sint u < 2 ^ (LENGTH(32) - 1)" by (rule sint_lt)
  then show ?thesis using True by (simp add: intOfUint32_def)
next
  case False
  have "uint u < 2 ^ LENGTH(32)" by (rule uint_lt2p)
  then show ?thesis using False by (simp add: intOfUint32_def)
qed

lemma intOfUint32_nonneg: "intSize \<noteq> 32 \<Longrightarrow> 0 \<le> intOfUint32 intSize u"
  by (simp add: intOfUint32_def)

lemma decLength_bound:
  assumes "decLength intSize d = Inr (l, d1)"
  shows "l < 2 ^ 32 \<and> (intSize \<noteq> 32 \<longrightarrow> 0 \<le> l) \<and>
         (\<exists>u. decUint32 d = Inr (u, d1) \<and> l = intOfUint32 intSize u)"
  using assms intOfUint32_bound[of intSize] intOfUint32_nonneg[of intSize]
  by (auto simp: decLength_def bindE_def split: sum.splits)

lemma bufSlice_length:
  "bufSlice d lo hi = Inr bs \<Longrightarrow> int (length bs) = hi - lo"
  by (auto simp: bufSlice_def split: if_splits)

lemma decString_bound:
  assumes "decString intSize d = Inr (s, d1)"
  shows "int (length s) < 2 ^ 32 \<and>
         (\<exists>u d0. decUint32 d = Inr (u, d0) \<and> int (length s) = intOfUint32 intSize u \<and>
                 index d1 = index d0 + int (length s))"
proof -
  from assms obtain u d0 bs where
    u: "decUint32 d = Inr (u, d0)"
    and b: "bufSlice d0 (index d0) (index d0 + intOfUint32 intSize u) = Inr bs"
    and r: "s = bs" "d1 = d0\<lparr>index := index d0 + intOfUint32 intSize u\<rparr>"
    by (auto simp: decString_def bindE_def Let_def split: sum.splits)
  have "int (length s) = intOfUint32 intSize u" using bufSlice_length[OF b] r by simp
  then show ?thesis using u r intOfUint32_bound[of intSize u] by auto
qed

lemma decBytes_bound:
  assumes "decBytes intSize d bytes = Inr (Some bs, d1)"
  shows "int (length bs) < 2 ^ 32"
proof -
  from assms obtain u d0 d2 where
    "bufSlice d2 (index d2) (index d2 + intOfUint32 intSize u) = Inr bs"
    by (auto simp: decBytes_def bindE_def Let_def split: sum.splits if_splits)
  from bufSlice_length[OF this] intOfUint32_bound[of intSize u] show ?thesis by simp
qed

lemma decSliceEng_bound:
  assumes "decIsNotNil d = Inr (True, d1)"
    and "decSliceEng intSize makeSlice eng elemSize d h header = Inr (header1, d3, h3)"
  shows "len header1 < 2 ^ 32 \<and> (\<exists>d2. decLength intSize d1 = Inr (len header1, d2))"
proof -
  from assms obtain l d2 where l: "decLength intSize d1 = Inr (l, d2)" and "len header1 = l"
    by (auto simp: decSliceEng_def bindE_def split: sum.splits if_splits prod.splits)
  then show ?thesis using decLength_bound[OF l] by auto
qed

lemma decMapEng_bound:
  assumes "decIsNotNil d = Inr (True, d1)"
    and "decMapEng intSize makeMap kEng vEng setMapIndex setZero key val d h mp
           = Inr (mp1, d3, h3)"
  shows "\<exists>l d2. decLength intSize d1 = Inr (l, d2) \<and> l < 2 ^ 32"
proof -
  from assms obtain l d2 where l: "decLength intSize d1 = Inr (l, d2)"
    by (auto simp: decMapEng_def bindE_def split: sum.splits)
  then show ?thesis using decLength_bound[OF l] by auto
qed

lemma decBinaryEng_bound:
  assumes "decBinaryEng intSize um d h = Inr (d2, h2)"
  shows "\<exists>l d1. decLength intSize d = Inr (l, d1) \<and> l < 2 ^ 32 \<and> index d2 = index d1 + l"
proof -
  from assms obtain l d1 where l: "decLength intSize d = Inr (l, d1)"
    and "d2 = d1\<lparr>index := index d1 + l\<rparr>"
    by (auto simp: decBinaryEng_def bindE_def Let_def split: sum.splits)
  then show ?thesis using decLength_bound[OF l] by auto
qed

lemma decGobEng_bound:
  assumes "decGobEng intSize um d h = Inr (d2, h2)"
  shows "\<exists>l d1. decLength intSize d = Inr (l, d1) \<and> l < 2 ^ 32 \<and> index d2 = index d1 + l"
proof -
  from assms obtain l d1 where l: "decLength intSize d = Inr (l, d1)"
    and "d2 = d1\<lparr>index := index d1 + l\<rparr>"
    by (auto simp: decGobEng_def bindE_def Let_def split: sum.splits)
  then show ?thesis using decLength_bound[OF l] by auto
qed

lemma decMapEng_present:
  assumes "decIsNotNil d = Inr (True, d1)" "decLength intSize d1 = Inr (l, d2)"
  shows "decMapEng intSize makeMap kEng vEng setMapIndex setZero key val d h mp =
     (let (v, h1) = (case mp of None \<Rightarrow> makeMap l h | Some m \<Rightarrow> (m, h))
      in bindE (runEntries kEng vEng (\<lambda>hh. bindE (setMapIndex v hh) (\<lambda>hi. Inr (setZero hi)))
                  key val [0..<nat l] d2 h1)
           (\<lambda>(d3, h2). Inr (Some v, d3, h2)))"
  using assms by (cases mp; cases "makeMap l h") (simp_all add: decMapEng_def bindE_def)

text \<open>
  Claim C10. \<open>decLength\<close> is \<open>int(d.decUint32())\<close>, and the length of a string, of a
  byte slice, of a slice, of a map and of the blob of a type with \<open>UnmarshalBinary\<close> or
  \<open>GobDecode\<close> is read that way. The conversion of a \<open>uint32\<close> to \<open>int\<close> is below
  \<open>2 ^ 32\<close> whatever the size of \<open>int\<close> (and not negative unless \<open>int\<close> has 32
  bits), so every length that is decoded is below \<open>2 ^ 32\<close>: the string and the byte
  slice returned have fewer than \<open>2 ^ 32\<close> bytes, the slice header gets a length below
  \<open>2 ^ 32\<close>, the map engine decodes \<open>l\<close> entries for a decoded \<open>l\<close> below \<open>2 ^ 32\<close>,
  and a blob engine moves the index by a decoded length below \<open>2 ^ 32\<close>.
\<close>

theorem length_prefix_bounds:
  "decLength intSize d = bindE (decUint32 d) (\<lambda>(w, dx). Inr (intOfUint32 intSize w, dx)) \<and>
   intOfUint32 intSize u < 2 ^ 32 \<and>
   (intSize \<noteq> 32 \<longrightarrow> 0 \<le> intOfUint32 intSize u) \<and>
   (decLength intSize d = Inr (l, da) \<longrightarrow>
      l < 2 ^ 32 \<and> (intSize \<noteq> 32 \<longrightarrow> 0 \<le> l) \<and>
      (\<exists>w. decUint32 d = Inr (w, da) \<and> l = intOfUint32 intSize w)) \<and>
   (decString intSize ds = Inr (s, dsa) \<longrightarrow>
      int (length s) < 2 ^ 32 \<and>
      (\<exists>w dx. decUint32 ds = Inr (w, dx) \<and> int (length s) = intOfUint32 intSize w \<and>
               index dsa = index dx + int (length s))) \<and>
   (decBytes intSize db bytes = Inr (Some bs, dba) \<longrightarrow> int (length bs) < 2 ^ 32) \<and>
   (decIsNotNil dl = Inr (True, dla) \<and>
    decSliceEng intSize makeSlice eng elemSize dl h header = Inr (headera, dlb, hl) \<longrightarrow>
      len headera < 2 ^ 32 \<and> (\<exists>dx. decLength intSize dla = Inr (len headera, dx))) \<and>
   (decIsNotNil dm = Inr (True, dma) \<and> decLength intSize dma = Inr (lm, dmb) \<longrightarrow>
      lm < 2 ^ 32 \<and>
      decMapEng intSize makeMap kEng vEng setMapIndex setZero key val dm h mp =
        (let (v, hx) = (case mp of None \<Rightarrow> makeMap lm h | Some m \<Rightarrow> (m, h))
         in bindE (runEntries kEng vEng
                     (\<lambda>hh. bindE (setMapIndex v hh) (\<lambda>hi. Inr (setZero hi))) key val
                     [0..<nat lm] dmb hx)
              (\<lambda>(dy, hy). Inr (Some v, dy, hy)))) \<and>
   (decBinaryEng intSize um dq hq = Inr (dqa, hqa) \<longrightarrow>
      (\<exists>lq dx. decLength intSize dq = Inr (lq, dx) \<and> lq < 2 ^ 32 \<and> index dqa = index dx + lq)) \<and>
   (decGobEng intSize ug dg hg = Inr (dga, hga) \<longrightarrow>
      (\<exists>lg dx. decLength intSize dg = Inr (lg, dx) \<and> lg < 2 ^ 32 \<and> index dga = index dx + lg))"
proof (intro conjI, goal_cases)
  case 1
  show ?case by (simp add: decLength_def)
next
  case 2
  show ?case by (rule intOfUint32_bound)
next
  case 3
  show ?case by (rule impI) (rule intOfUint32_nonneg)
next
  case 4
  show ?case by (rule impI) (rule decLength_bound)
next
  case 5
  show ?case by (rule impI) (rule decString_bound)
next
  case 6
  show ?case by (rule impI) (rule decBytes_bound)
next
  case 7
  show ?case by (rule impI, elim conjE) (rule decSliceEng_bound)
next
  case 8
  show ?case
  proof (rule impI, elim conjE, rule conjI)
    assume a: "decIsNotNil dm = Inr (True, dma)" and b: "decLength intSize dma = Inr (lm, dmb)"
    show "lm < 2 ^ 32" using decLength_bound[OF b] by simp
    show "decMapEng intSize makeMap kEng vEng setMapIndex setZero key val dm h mp =
        (let (v, hx) = (case mp of None \<Rightarrow> makeMap lm h | Some m \<Rightarrow> (m, h))
         in bindE (runEntries kEng vEng
                     (\<lambda>hh. bindE (setMapIndex v hh) (\<lambda>hi. Inr (setZero hi))) key val
                     [0..<nat lm] dmb hx)
              (\<lambda>(dy, hy). Inr (Some v, dy, hy)))"
      by (rule decMapEng_present[OF a b])
  qed
next
  case 9
  show ?case by (rule impI) (rule decBinaryEng_bound)
next
  case 10
  show ?case by (rule impI) (rule decGobEng_bound)
qed

theorem length_prefix_bounds_witness:
  "decLength 64 (newDecoder [0xFF, 0xFF, 0xFF, 0xFF, 0x0F])
     = Inr (4294967295, (newDecoder [0xFF, 0xFF, 0xFF, 0xFF, 0x0F])\<lparr>index := 5\<rparr>) \<and>
   (4294967295 :: int) < 2 ^ 32 \<and>
   decLength 32 (newDecoder [0xFF, 0xFF, 0xFF, 0xFF, 0x0F])
     = Inr (- 1, (newDecoder [0xFF, 0xFF, 0xFF, 0xFF, 0x0F])\<lparr>index := 5\<rparr>) \<and>
   decString 64 (newDecoder [0x02, 0x41, 0x42])
     = Inr ([0x41, 0x42], (newDecoder [0x02, 0x41, 0x42])\<lparr>index := 3\<rparr>) \<and>
   decBytes 64 (newDecoder [0x01, 0x02, 0x41, 0x42]) None
     = Inr (Some [0x41, 0x42],
            (newDecoder [0x01, 0x02, 0x41, 0x42])\<lparr>boolBit := 2, boolPos := 1, index := 4\<rparr>) \<and>
   decSliceEng 64 (\<lambda>n m. (1000, m)) (decUint8Eng (\<lambda>a v m. m @ [(a, v)])) 1
       (newDecoder [0x01, 0x02, 0x0A, 0x0B]) [] \<lparr>data = None, len = 0, cap = 0\<rparr>
     = Inr (\<lparr>data = Some 1000, len = 2, cap = 2\<rparr>,
            (newDecoder [0x01, 0x02, 0x0A, 0x0B])\<lparr>boolBit := 2, boolPos := 1, index := 4\<rparr>,
            [(1000, 0x0A), (1001, 0x0B)]) \<and>
   decMapEng 64 (\<lambda>n m. (700, m)) (decUint8Eng (\<lambda>a v m. m @ [(a, v)]))
       (decUint8Eng (\<lambda>a v m. m @ [(a, v)])) (\<lambda>mapPtr m. Inr m) (\<lambda>m. m) 10 11
       (newDecoder [0x01, 0x01, 0x05, 0x06]) [] None
     = Inr (Some 700,
            (newDecoder [0x01, 0x01, 0x05, 0x06])\<lparr>boolBit := 2, boolPos := 1, index := 4\<rparr>,
            [(10, 0x05), (11, 0x06)]) \<and>
   decBinaryEng 64 (\<lambda>blob m. Inr (m @ blob)) (newDecoder [0x02, 0x41, 0x42]) []
     = Inr ((newDecoder [0x02, 0x41, 0x42])\<lparr>index := 3\<rparr>, [0x41, 0x42]) \<and>
   decGobEng 64 (\<lambda>blob m. Inr (m @ blob)) (newDecoder [0x02, 0x41, 0x42]) []
     = Inr ((newDecoder [0x02, 0x41, 0x42])\<lparr>index := 3\<rparr>, [0x41, 0x42])"
  using length_prefix_bounds[where intSize = 64
      and d = "newDecoder [0xFF, 0xFF, 0xFF, 0xFF, 0x0F]" and u = "0xFFFFFFFF"
      and l = 4294967295 and da = "(newDecoder [0xFF, 0xFF, 0xFF, 0xFF, 0x0F])\<lparr>index := 5\<rparr>"
      and ds = "newDecoder [0x02, 0x41, 0x42]" and s = "[0x41, 0x42]"
      and dsa = "(newDecoder [0x02, 0x41, 0x42])\<lparr>index := 3\<rparr>"
      and db = "newDecoder [0x01, 0x02, 0x41, 0x42]" and bytes = None and bs = "[0x41, 0x42]"
      and dba = "(newDecoder [0x01, 0x02, 0x41, 0x42])\<lparr>boolBit := 2, boolPos := 1, index := 4\<rparr>"
      and dl = "newDecoder [0x01, 0x02, 0x0A, 0x0B]"
      and dla = "(newDecoder [0x01, 0x02, 0x0A, 0x0B])\<lparr>boolBit := 2, boolPos := 1, index := 1\<rparr>"
      and makeSlice = "\<lambda>n m. (1000, m)" and eng = "decUint8Eng (\<lambda>a v m. m @ [(a, v)])"
      and elemSize = 1 and h = "[]" and header = "\<lparr>data = None, len = 0, cap = 0\<rparr>"
      and headera = "\<lparr>data = Some 1000, len = 2, cap = 2\<rparr>"
      and dlb = "(newDecoder [0x01, 0x02, 0x0A, 0x0B])\<lparr>boolBit := 2, boolPos := 1, index := 4\<rparr>"
      and hl = "[(1000, 0x0A), (1001, 0x0B)]"
      and dm = "newDecoder [0x01, 0x01, 0x05, 0x06]"
      and dma = "(newDecoder [0x01, 0x01, 0x05, 0x06])\<lparr>boolBit := 2, boolPos := 1, index := 1\<rparr>"
      and lm = 1
      and dmb = "(newDecoder [0x01, 0x01, 0x05, 0x06])\<lparr>boolBit := 2, boolPos := 1, index := 2\<rparr>"
      and makeMap = "\<lambda>n m. (700, m)" and kEng = "decUint8Eng (\<lambda>a v m. m @ [(a, v)])"
      and vEng = "decUint8Eng (\<lambda>a v m. m @ [(a, v)])" and setMapIndex = "\<lambda>mapPtr m. Inr m"
      and setZero = "\<lambda>m. m" and key = 10 and val = 11 and mp = None
      and um = "\<lambda>blob m. Inr (m @ blob)" and dq = "newDecoder [0x02, 0x41, 0x42]" and hq = "[]"
      and dqa = "(newDecoder [0x02, 0x41, 0x42])\<lparr>index := 3\<rparr>" and hqa = "[0x41, 0x42]"
      and ug = "\<lambda>blob m. Inr (m @ blob)" and dg = "newDecoder [0x02, 0x41, 0x42]" and hg = "[]"
      and dga = "(newDecoder [0x02, 0x41, 0x42])\<lparr>index := 3\<rparr>" and hga = "[0x41, 0x42]"]
  by (simp add: newDecoder_def decIsNotNil_def decBool_def decLength_def decString_def
        decBytes_def decSliceEng_def decMapEng_def decBinaryEng_def decGobEng_def decUint32_def
        decUint8Eng_def intOfUint32_def bufAt_def bufSlice_def bindE_def Let_def
        isNilHeader_def addrOf_def upt_rec)


section \<open>The registry stays one to one\<close>

lemma RegisterName_success:
  assumes "RegisterName name rt reg = Inr reg1"
  shows "name \<noteq> [] \<and> rt \<noteq> Nil \<and> type2name reg rt = None \<and> name2type reg name = None \<and>
         name2type reg1 = (name2type reg)(name \<mapsto> rt) \<and>
         type2name reg1 = (type2name reg)(rt \<mapsto> name)"
  using assms by (auto simp: RegisterName_def split: if_splits)

lemma RegisterName_conflict:
  assumes "type2name reg rt \<noteq> None \<or> name2type reg name \<noteq> None"
  shows "isl (RegisterName name rt reg)"
  using assms by (auto simp: RegisterName_def)

lemma RegisterName_duplicate_type:
  assumes "name \<noteq> []" "rt \<noteq> Nil" "type2name reg rt \<noteq> None"
  shows "RegisterName name rt reg =
           Inl (Panic (''gotiny: registering duplicate types for '' @ GetNameByType rt))"
  using assms by (simp add: RegisterName_def)

lemma RegisterName_duplicate_name:
  assumes "name \<noteq> []" "rt \<noteq> Nil" "type2name reg rt = None" "name2type reg name \<noteq> None"
  shows "RegisterName name rt reg =
           Inl (Panic (''gotiny: registering name'' @ name @ '' is exist''))"
  using assms by (simp add: RegisterName_def)

lemma RegisterName_inverse:
  assumes inv: "\<forall>t n. (type2name reg t = Some n) = (name2type reg n = Some t)"
    and ok: "RegisterName name rt reg = Inr reg1"
  shows "\<forall>t n. (type2name reg1 t = Some n) = (name2type reg1 n = Some t)"
proof (intro allI)
  fix t n
  from RegisterName_success[OF ok] have
    f: "type2name reg rt = None" "name2type reg name = None"
    and u: "name2type reg1 = (name2type reg)(name \<mapsto> rt)"
           "type2name reg1 = (type2name reg)(rt \<mapsto> name)"
    by simp_all
  have a: "name2type reg n \<noteq> Some rt" using inv f(1) by (metis option.distinct(1))
  have b: "type2name reg t \<noteq> Some name" using inv f(2) by (metis option.distinct(1))
  show "(type2name reg1 t = Some n) = (name2type reg1 n = Some t)"
    using inv a b unfolding u by (auto simp: fun_upd_def)
qed

lemma RegisterName_grows:
  assumes "RegisterName name rt reg = Inr reg1"
  shows "type2name reg \<subseteq>\<^sub>m type2name reg1 \<and> name2type reg \<subseteq>\<^sub>m name2type reg1"
  using RegisterName_success[OF assms] by (auto simp: map_le_def dom_def)

lemma applyOp_cases:
  "applyOp op reg = reg \<or> (\<exists>name rt. RegisterName name rt reg = Inr (applyOp op reg))"
proof (cases op)
  case (OpRegisterName name rt)
  then show ?thesis by (cases "RegisterName name rt reg") auto
next
  case (OpRegister rt)
  then show ?thesis
    by (cases "RegisterName (GetNameByType rt) rt reg")
       (auto simp: Register_def registerType_def bindE_def Let_def)
next
  case (OpGetNameOfType rt)
  then show ?thesis
    by (cases "RegisterName (GetNameByType rt) rt reg"; cases "type2name reg rt")
       (auto simp: getNameOfType_def registerType_def bindE_def Let_def)
qed

lemma applyOp_inverse:
  assumes "\<forall>t n. (type2name reg t = Some n) = (name2type reg n = Some t)"
  shows "\<forall>t n. (type2name (applyOp op reg) t = Some n) = (name2type (applyOp op reg) n = Some t)"
  using applyOp_cases[of op reg] assms RegisterName_inverse[OF assms] by metis

lemma applyOp_grows:
  "type2name reg \<subseteq>\<^sub>m type2name (applyOp op reg) \<and>
   name2type reg \<subseteq>\<^sub>m name2type (applyOp op reg)"
  using applyOp_cases[of op reg] RegisterName_grows by (metis map_le_refl)

lemma fold_applyOp_inverse:
  "\<forall>t n. (type2name reg t = Some n) = (name2type reg n = Some t) \<Longrightarrow>
   \<forall>t n. (type2name (fold applyOp ops reg) t = Some n)
         = (name2type (fold applyOp ops reg) n = Some t)"
proof (induction ops arbitrary: reg)
  case Nil
  then show ?case by simp
next
  case (Cons op ops)
  from Cons.IH[OF applyOp_inverse[OF Cons.prems, of op]] show ?case by simp
qed

lemma runOps_inverse:
  "\<forall>t n. (type2name (runOps ops) t = Some n) = (name2type (runOps ops) n = Some t)"
  unfolding runOps_def by (rule fold_applyOp_inverse) (simp add: emptyRegistry_def)

lemma runOps_one_name:
  "type2name (runOps ops) t = Some n \<Longrightarrow> type2name (runOps ops) t1 = Some n \<Longrightarrow> t = t1"
  using runOps_inverse[of ops] by (metis option.inject)

lemma runOps_one_type:
  "name2type (runOps ops) n = Some t \<Longrightarrow> name2type (runOps ops) n1 = Some t \<Longrightarrow> n = n1"
  using runOps_inverse[of ops] by (metis option.inject)

lemma runOps_snoc: "runOps (ops @ [op]) = applyOp op (runOps ops)"
  by (simp add: runOps_def)

text \<open>
  Claim C8. \<open>RegisterName\<close> panics whenever the type has an entry already or the name
  has one (with the message of the duplicate type, or else of the name that exists).
  When it returns, neither had an entry and exactly the one pair has been added to both
  tables. No operation removes or changes an entry. So after every sequence of
  \<open>RegisterName\<close>, \<open>Register\<close> and \<open>getNameOfType\<close> calls from the empty registry,
  whether they panic or not, the two tables are inverse to each other: a type is
  registered under a name exactly when the name is registered for the type, no two
  types share a name and no two names a type.
\<close>

theorem registry_one_to_one:
  "(type2name reg rt \<noteq> None \<or> name2type reg name \<noteq> None \<longrightarrow>
      isl (RegisterName name rt reg)) \<and>
   (name \<noteq> [] \<and> rt \<noteq> Nil \<and> type2name reg rt \<noteq> None \<longrightarrow>
      RegisterName name rt reg =
        Inl (Panic (''gotiny: registering duplicate types for '' @ GetNameByType rt))) \<and>
   (namen \<noteq> [] \<and> rtn \<noteq> Nil \<and> type2name regn rtn = None \<and> name2type regn namen \<noteq> None \<longrightarrow>
      RegisterName namen rtn regn =
        Inl (Panic (''gotiny: registering name'' @ namen @ '' is exist''))) \<and>
   (RegisterName nameb rtb regb = Inr regc \<longrightarrow>
      nameb \<noteq> [] \<and> rtb \<noteq> Nil \<and> type2name regb rtb = None \<and> name2type regb nameb = None \<and>
      name2type regc = (name2type regb)(nameb \<mapsto> rtb) \<and>
      type2name regc = (type2name regb)(rtb \<mapsto> nameb)) \<and>
   type2name (runOps ops) \<subseteq>\<^sub>m type2name (runOps (ops @ [op])) \<and>
   name2type (runOps ops) \<subseteq>\<^sub>m name2type (runOps (ops @ [op])) \<and>
   (\<forall>t n. (type2name (runOps ops) t = Some n) = (name2type (runOps ops) n = Some t)) \<and>
   (type2name (runOps ops) ta = Some na \<and> type2name (runOps ops) tb = Some na \<longrightarrow> ta = tb) \<and>
   (name2type (runOps ops) nc = Some tc \<and> name2type (runOps ops) nd = Some tc \<longrightarrow> nc = nd)"
proof (intro conjI, goal_cases)
  case 1
  show ?case by (rule impI) (rule RegisterName_conflict)
next
  case 2
  show ?case by (rule impI, elim conjE) (rule RegisterName_duplicate_type)
next
  case 3
  show ?case by (rule impI, elim conjE) (rule RegisterName_duplicate_name)
next
  case 4
  show ?case by (rule impI) (rule RegisterName_success)
next
  case 5
  show ?case unfolding runOps_snoc by (rule applyOp_grows[THEN conjunct1])
next
  case 6
  show ?case unfolding runOps_snoc by (rule applyOp_grows[THEN conjunct2])
next
  case 7
  show ?case by (rule runOps_inverse)
next
  case 8
  show ?case by (rule impI, elim conjE) (rule runOps_one_name)
next
  case 9
  show ?case by (rule impI, elim conjE) (rule runOps_one_type)
qed

theorem registry_one_to_one_witness:
  "runOps [OpRegisterName ''T'' (Named 1 ''main'' ''T''), OpRegister (PtrTo (Named 1 ''main'' ''T'')),
           OpRegisterName ''T'' (Named 2 ''main'' ''U''), OpGetNameOfType (Named 1 ''main'' ''T'')]
     = \<lparr>type2name = [Named 1 ''main'' ''T'' \<mapsto> ''T'', PtrTo (Named 1 ''main'' ''T'') \<mapsto> ''*main.T''],
        name2type = [''T'' \<mapsto> Named 1 ''main'' ''T'', ''*main.T'' \<mapsto> PtrTo (Named 1 ''main'' ''T'')]\<rparr> \<and>
   RegisterName ''U'' (Named 1 ''main'' ''T'')
       \<lparr>type2name = [Named 1 ''main'' ''T'' \<mapsto> ''T''], name2type = [''T'' \<mapsto> Named 1 ''main'' ''T'']\<rparr>
     = Inl (Panic ''gotiny: registering duplicate types for main.T'') \<and>
   RegisterName ''T'' (Named 2 ''main'' ''U'')
       \<lparr>type2name = [Named 1 ''main'' ''T'' \<mapsto> ''T''], name2type = [''T'' \<mapsto> Named 1 ''main'' ''T'']\<rparr>
     = Inl (Panic ''gotiny: registering nameT is exist'') \<and>
   RegisterName ''T'' (Named 1 ''main'' ''T'') emptyRegistry
     = Inr \<lparr>type2name = [Named 1 ''main'' ''T'' \<mapsto> ''T''],
            name2type = [''T'' \<mapsto> Named 1 ''main'' ''T'']\<rparr>"
  using registry_one_to_one[where
      reg = "\<lparr>type2name = [Named 1 ''main'' ''T'' \<mapsto> ''T''], name2type = [''T'' \<mapsto> Named 1 ''main'' ''T'']\<rparr>"
      and rt = "Named 1 ''main'' ''T''" and name = "''U''"
      and regn = "\<lparr>type2name = [Named 1 ''main'' ''T'' \<mapsto> ''T''], name2type = [''T'' \<mapsto> Named 1 ''main'' ''T'']\<rparr>"
      and rtn = "Named 2 ''main'' ''U''" and namen = "''T''"
      and regb = emptyRegistry and rtb = "Named 1 ''main'' ''T''" and nameb = "''T''"
      and regc = "\<lparr>type2name = [Named 1 ''main'' ''T'' \<mapsto> ''T''], name2type = [''T'' \<mapsto> Named 1 ''main'' ''T'']\<rparr>"
      and ops = "[OpRegisterName ''T'' (Named 1 ''main'' ''T''), OpRegister (PtrTo (Named 1 ''main'' ''T'')),
           OpRegisterName ''T'' (Named 2 ''main'' ''U'')]"
      and op = "OpGetNameOfType (Named 1 ''main'' ''T'')"
      and ta = "Named 1 ''main'' ''T''" and tb = "Named 1 ''main'' ''T''" and na = "''T''"
      and nc = "''T''" and nd = "''T''" and tc = "Named 1 ''main'' ''T''"]
  by (simp add: runOps_def RegisterName_def Register_def registerType_def getNameOfType_def
        GetNameByType_def emptyRegistry_def bindE_def Let_def fun_upd_twist)

end
